theory Spec2Isabelle
  imports Main "HOL-Library.Word"
begin

section \<open>Scope tables and value paths of gnovm/pkg/gnolang/nodes.go\<close>

text \<open>
  A shallow embedding of the static-block (scope table) operations, the value-path
  constructors, the crossing-intent test and the package-name check of
  \<^verbatim>\<open>gnovm/pkg/gnolang/nodes.go\<close>. Every panic of the Go code is a value
  of the type \<open>error\<close>, returned as \<open>Inl\<close>; a function that mutates its
  receiver returns the updated receiver.
\<close>

subsection \<open>Basic types\<close>

type_synonym Name = string
type_synonym uint8 = "8 word"
type_synonym uint16 = "16 word"

text \<open>One constructor for each panic (or returned error) of the modelled code.\<close>

datatype error =
    NilDereference
  | IndexOutOfRange
  | TypeAssertionFailed
  | NameNotDeclared Name
  | ValuePathDepthOverflow
  | ExceededMaximumDepth
  | InvalidValuePath
  | UnexpectedValuePathType
  | ExpectedBlockTypeValuePath
  | NameCannotBeZero
  | NumNamesMismatch
  | TooManyVariables
  | RequiresTIfVIsSet
  | CannotChangeConstStatus Name
  | CannotChangeT Name
  | CannotChangeV Name
  | InvalidPackageName string
  | ReadFileError string
  | ParseError string

text \<open>
  Modelled from the spec: the constant \<^verbatim>\<open>blankIdentifier\<close> is declared outside
  nodes.go. It is the blank name \<open>_\<close>, as the comment in \<^verbatim>\<open>Validate\<close> says
  (\<^verbatim>\<open>// 0 ok ("_" blank)\<close>).
\<close>

definition blankIdentifier :: Name where
  "blankIdentifier = ''_''"

subsection \<open>Value paths\<close>

record ValuePath =
  Type :: uint8
  Depth :: uint8
  Index :: uint16
  Name :: Name

definition MaxValuePathDepth :: nat where
  "MaxValuePathDepth = 127"

definition VPUverse :: uint8 where "VPUverse = 0x00"
definition VPBlock :: uint8 where "VPBlock = 0x01"
definition VPField :: uint8 where "VPField = 0x02"
definition VPValMethod :: uint8 where "VPValMethod = 0x03"
definition VPPtrMethod :: uint8 where "VPPtrMethod = 0x04"
definition VPInterface :: uint8 where "VPInterface = 0x05"
definition VPSubrefField :: uint8 where "VPSubrefField = 0x06"
definition VPDerefField :: uint8 where "VPDerefField = 0x12"
definition VPDerefValMethod :: uint8 where "VPDerefValMethod = 0x13"
definition VPDerefPtrMethod :: uint8 where "VPDerefPtrMethod = 0x14"
definition VPDerefInterface :: uint8 where "VPDerefInterface = 0x15"

definition validateDepth :: "ValuePath \<Rightarrow> error + unit" where
  "validateDepth vp =
     (if unat (Depth vp) > MaxValuePathDepth then Inl ExceededMaximumDepth else Inr ())"

text \<open>
  \<^verbatim>\<open>SetDepth\<close> writes the field and then validates; when the validation panics the
  caller gets no path back.
\<close>

definition SetDepth :: "ValuePath \<Rightarrow> uint8 \<Rightarrow> error + ValuePath" where
  "SetDepth vp d =
     (let vp' = vp\<lparr>Depth := d\<rparr> in
      case validateDepth vp' of Inl e \<Rightarrow> Inl e | Inr _ \<Rightarrow> Inr vp')"

definition must :: "bool \<Rightarrow> error + unit" where
  "must ok = (if ok then Inr () else Inl InvalidValuePath)"

definition Validate :: "ValuePath \<Rightarrow> error + unit" where
  "Validate vp =
     (case validateDepth vp of
        Inl e \<Rightarrow> Inl e
      | Inr _ \<Rightarrow>
         (if Type vp = VPUverse then must (Depth vp = 0)
          else if Type vp = VPBlock then Inr ()
          else if Type vp = VPField then must (\<not> Depth vp > 1)
          else if Type vp = VPValMethod then must (Depth vp = 0)
          else if Type vp = VPPtrMethod then must (Depth vp = 0)
          else if Type vp = VPInterface then must (Depth vp = 0 \<and> Name vp \<noteq> [])
          else if Type vp = VPSubrefField then must (\<not> Depth vp > 3)
          else if Type vp = VPDerefField then must (\<not> Depth vp > 3)
          else if Type vp = VPDerefValMethod then must (Depth vp = 0)
          else if Type vp = VPDerefPtrMethod then must (Depth vp = 0)
          else if Type vp = VPDerefInterface then must (Depth vp = 0 \<and> Name vp \<noteq> [])
          else Inl UnexpectedValuePathType))"

definition NewValuePath :: "uint8 \<Rightarrow> uint8 \<Rightarrow> uint16 \<Rightarrow> Name \<Rightarrow> error + ValuePath" where
  "NewValuePath t depth index n =
     (let vp = \<lparr>Type = t, Depth = depth, Index = index, Name = n\<rparr> in
      case Validate vp of Inl e \<Rightarrow> Inl e | Inr _ \<Rightarrow> Inr vp)"

definition NewValuePathUverse :: "uint16 \<Rightarrow> Name \<Rightarrow> error + ValuePath" where
  "NewValuePathUverse index n = NewValuePath VPUverse 0 index n"

definition NewValuePathBlock :: "uint8 \<Rightarrow> uint16 \<Rightarrow> Name \<Rightarrow> error + ValuePath" where
  "NewValuePathBlock depth index n = NewValuePath VPBlock depth index n"

definition NewValuePathField :: "uint8 \<Rightarrow> uint16 \<Rightarrow> Name \<Rightarrow> error + ValuePath" where
  "NewValuePathField depth index n = NewValuePath VPField depth index n"

definition NewValuePathValMethod :: "uint16 \<Rightarrow> Name \<Rightarrow> error + ValuePath" where
  "NewValuePathValMethod index n = NewValuePath VPValMethod 0 index n"

definition NewValuePathPtrMethod :: "uint16 \<Rightarrow> Name \<Rightarrow> error + ValuePath" where
  "NewValuePathPtrMethod index n = NewValuePath VPPtrMethod 0 index n"

definition NewValuePathInterface :: "Name \<Rightarrow> error + ValuePath" where
  "NewValuePathInterface n = NewValuePath VPInterface 0 0 n"

definition NewValuePathSubrefField :: "uint8 \<Rightarrow> uint16 \<Rightarrow> Name \<Rightarrow> error + ValuePath" where
  "NewValuePathSubrefField depth index n = NewValuePath VPSubrefField depth index n"

definition NewValuePathDerefField :: "uint8 \<Rightarrow> uint16 \<Rightarrow> Name \<Rightarrow> error + ValuePath" where
  "NewValuePathDerefField depth index n = NewValuePath VPDerefField depth index n"

definition NewValuePathDerefValMethod :: "uint16 \<Rightarrow> Name \<Rightarrow> error + ValuePath" where
  "NewValuePathDerefValMethod index n = NewValuePath VPDerefValMethod 0 index n"

definition NewValuePathDerefPtrMethod :: "uint16 \<Rightarrow> Name \<Rightarrow> error + ValuePath" where
  "NewValuePathDerefPtrMethod index n = NewValuePath VPDerefPtrMethod 0 index n"

definition NewValuePathDerefInterface :: "Name \<Rightarrow> error + ValuePath" where
  "NewValuePathDerefInterface n = NewValuePath VPDerefInterface 0 0 n"

subsection \<open>Types, values and static blocks\<close>

text \<open>
  Modelled from the spec: the declarations of \<^verbatim>\<open>Type\<close>, \<^verbatim>\<open>Value\<close> and
  \<^verbatim>\<open>TypedValue\<close> are outside nodes.go. \<^verbatim>\<open>Define2\<close> observes a
  \<^verbatim>\<open>Type\<close> only through \<^verbatim>\<open>Kind()\<close>, \<^verbatim>\<open>TypeID()\<close> and
  \<^verbatim>\<open>baseOf(t).(*FuncType).IsZero()\<close>, so a type is the record of these three
  observations. A \<^verbatim>\<open>Value\<close> is compared with \<^verbatim>\<open>!=\<close> and asserted to be a
  \<^verbatim>\<open>*FuncValue\<close>, so it is a tagged identity; the \<^verbatim>\<open>Type\<close> field of the
  function value at an address is kept in a separate store, because \<^verbatim>\<open>Define2\<close>
  writes it through the pointer. The \<^verbatim>\<open>nil\<close> type and value are \<open>None\<close>.
\<close>

datatype Kind = FuncKind | OtherKind nat

record GnoType =
  Kind :: Kind
  TypeID :: string
  IsZero :: bool

datatype Value = FuncValue nat | OtherValue nat

record TypedValue =
  T :: "GnoType option"
  V :: "Value option"

type_synonym FuncValueTypes = "nat \<Rightarrow> GnoType option"

text \<open>
  Modelled from the spec: \<^verbatim>\<open>TypedValue.IsUndefined\<close> and \<^verbatim>\<open>anyValue\<close> are
  declared outside nodes.go. A reserved slot has an unset type: by the comment on
  \<^verbatim>\<open>Define2\<close>, setting the type and the value to nil reserves the name, and
  \<^verbatim>\<open>Predefine\<close> does so with \<^verbatim>\<open>anyValue(nil)\<close>.
\<close>

definition IsUndefined :: "TypedValue \<Rightarrow> bool" where
  "IsUndefined tv = (T tv = None)"

definition anyValue :: "GnoType option \<Rightarrow> TypedValue" where
  "anyValue t = \<lparr>T = t, V = None\<rparr>"

text \<open>
  The struct \<^verbatim>\<open>StaticBlock\<close>. \<open>Values\<close> is the slice \<^verbatim>\<open>Block.Values\<close> of the
  embedded block. The parent link is the rest of the scope chain (below); the source
  location is not read by any modelled function.
\<close>

record StaticBlock =
  Values :: "TypedValue list"
  Types :: "GnoType option list"
  NumNames :: uint16
  Names :: "Name list"
  HeapItems :: "bool list"
  UnassignableNames :: "Name list"
  Consts :: "Name list"
  Externs :: "Name list"
  oldValues :: "(uint16 \<times> Value option) list"

text \<open>The dynamic type of a block node: the implementations of \<^verbatim>\<open>BlockNode\<close>.\<close>

datatype NodeType =
    NFuncLitExpr | NBlockStmt | NForStmt | NIfStmt | NIfCaseStmt | NRangeStmt
  | NSelectCaseStmt | NSwitchStmt | NSwitchClauseStmt | NFuncDecl | NFileNode
  | NPackageNode

record BlockNode =
  node :: NodeType
  block :: StaticBlock

text \<open>
  A reference to a block node is the scope chain that starts there: the node itself
  followed by its ancestors, nearest first, so \<^verbatim>\<open>GetParentNode\<close> is the tail and
  \<^verbatim>\<open>nil\<close> the empty chain. The parent links of a program tree have no cycle.
  Modelled from the spec: \<^verbatim>\<open>Block.GetSource\<close> is declared outside nodes.go. The
  block of an initialized node has the node itself as \<^verbatim>\<open>Source\<close>
  (\<^verbatim>\<open>pn.InitStaticBlock(pn, nil)\<close>), so \<^verbatim>\<open>sb.GetSource(store)\<close> is the head of
  the chain.
\<close>

type_synonym Chain = "BlockNode list"

text \<open>
  Modelled from the spec: \<^verbatim>\<open>isFile\<close> and \<^verbatim>\<open>fauxChildBlockNode\<close> are
  declared outside nodes.go. A file is a \<^verbatim>\<open>FileNode\<close>; the faux child block nodes
  are the two cases that \<^verbatim>\<open>InitStaticBlock\<close> and \<^verbatim>\<open>GetBlockNodeForPath\<close>
  single out with \<^verbatim>\<open>case *IfCaseStmt, *SwitchClauseStmt\<close>, the children of the
  faux block nodes \<^verbatim>\<open>IfStmt\<close> and \<^verbatim>\<open>SwitchStmt\<close>.
\<close>

definition isFile :: "BlockNode \<Rightarrow> bool" where
  "isFile bn = (node bn = NFileNode)"

definition fauxChildBlockNode :: "BlockNode \<Rightarrow> bool" where
  "fauxChildBlockNode bn = (node bn = NIfCaseStmt \<or> node bn = NSwitchClauseStmt)"

subsection \<open>Local lookup and extern names\<close>

text \<open>The loop of \<^verbatim>\<open>GetLocalIndex\<close>, with the loop index \<open>i\<close> converted by \<^verbatim>\<open>uint16(i)\<close>.\<close>

fun GetLocalIndex_loop :: "Name list \<Rightarrow> Name \<Rightarrow> nat \<Rightarrow> uint16 \<times> bool" where
  "GetLocalIndex_loop [] n i = (0, False)"
| "GetLocalIndex_loop (name # names) n i =
     (if name = n then (of_nat i, True) else GetLocalIndex_loop names n (Suc i))"

definition GetLocalIndex :: "StaticBlock \<Rightarrow> Name \<Rightarrow> uint16 \<times> bool" where
  "GetLocalIndex sb n = GetLocalIndex_loop (Names sb) n 0"

definition getLocalIsConst :: "StaticBlock \<Rightarrow> Name \<Rightarrow> bool" where
  "getLocalIsConst sb n = (n \<in> set (Consts sb))"

definition addExternName :: "StaticBlock \<Rightarrow> Name \<Rightarrow> StaticBlock" where
  "addExternName sb n =
     (if n \<in> set (Externs sb) then sb else sb\<lparr>Externs := Externs sb @ [n]\<rparr>)"

definition noteExtern :: "BlockNode \<Rightarrow> Name \<Rightarrow> BlockNode" where
  "noteExtern sn n =
     (if \<not> isFile sn then sn\<lparr>block := addExternName (block sn) n\<rparr> else sn)"

subsection \<open>Resolving a name to a value path\<close>

text \<open>
  The ancestor loop of \<^verbatim>\<open>GetPathForName\<close>: \<open>sn\<close> is the chain from the ancestor
  being visited, \<open>gen\<close> and \<open>fauxChild\<close> are the two counters. It returns the path
  when an ancestor declares the name and \<open>None\<close> when \<open>sn\<close> became nil, together
  with the visited chain as the calls of \<^verbatim>\<open>addExternName\<close> left it.
\<close>

fun GetPathForName_ancestors ::
  "Name \<Rightarrow> int \<Rightarrow> int \<Rightarrow> Chain \<Rightarrow> error + (ValuePath option \<times> Chain)" where
  "GetPathForName_ancestors n gen fauxChild [] = Inr (None, [])"
| "GetPathForName_ancestors n gen fauxChild (sn # parent) =
     (case GetLocalIndex (block sn) n of
        (idx, True) \<Rightarrow>
          (if 0xff < gen - fauxChild then Inl ValuePathDepthOverflow
           else case NewValuePathBlock (of_int (gen - fauxChild)) idx n of
                  Inl e \<Rightarrow> Inl e
                | Inr p \<Rightarrow> Inr (Some p, sn # parent))
      | (idx, False) \<Rightarrow>
          (case GetPathForName_ancestors n (gen + 1)
                  (if fauxChildBlockNode sn then fauxChild + 1 else fauxChild) parent of
             Inl e \<Rightarrow> Inl e
           | Inr (r, parent') \<Rightarrow> Inr (r, noteExtern sn n # parent')))"

text \<open>
  \<^verbatim>\<open>GetPathForName\<close> on the block at the head of \<open>sb\<close>. \<open>uverse\<close> is the block
  of \<^verbatim>\<open>UverseNode()\<close>, which is built outside nodes.go. The result is the path and
  the scope chain after the call.
\<close>

definition GetPathForName ::
  "StaticBlock \<Rightarrow> Chain \<Rightarrow> Name \<Rightarrow> error + (ValuePath \<times> Chain)" where
  "GetPathForName uverse sb n =
     (if n = blankIdentifier then
        (case NewValuePathBlock 0 0 blankIdentifier of
           Inl e \<Rightarrow> Inl e | Inr p \<Rightarrow> Inr (p, sb))
      else case sb of
        [] \<Rightarrow> Inl NilDereference
      | sn # parent \<Rightarrow>
         (case GetLocalIndex (block sn) n of
            (idx, True) \<Rightarrow>
              (case NewValuePathBlock 1 idx n of
                 Inl e \<Rightarrow> Inl e | Inr p \<Rightarrow> Inr (p, sb))
          | (idx, False) \<Rightarrow>
              (case GetPathForName_ancestors n 2
                      (if fauxChildBlockNode sn then 1 else 0) parent of
                 Inl e \<Rightarrow> Inl e
               | Inr (Some p, parent') \<Rightarrow> Inr (p, noteExtern sn n # parent')
               | Inr (None, parent') \<Rightarrow>
                  (case GetLocalIndex uverse n of
                     (idx, True) \<Rightarrow>
                       (case NewValuePathUverse idx n of
                          Inl e \<Rightarrow> Inl e
                        | Inr p \<Rightarrow> Inr (p, noteExtern sn n # parent'))
                   | (idx, False) \<Rightarrow> Inl (NameNotDeclared n)))))"

subsection \<open>From a value path back to the declaring block node\<close>

text \<open>
  The loop of \<^verbatim>\<open>GetBlockNodeForPath\<close>: \<open>k\<close> iterations remain. Calling
  \<^verbatim>\<open>GetParentNode\<close> on a nil block node panics.
\<close>

fun GetBlockNodeForPath_loop :: "nat \<Rightarrow> Chain \<Rightarrow> error + Chain" where
  "GetBlockNodeForPath_loop 0 bn = Inr bn"
| "GetBlockNodeForPath_loop (Suc k) [] = Inl NilDereference"
| "GetBlockNodeForPath_loop (Suc k) (b # parent) =
     (if fauxChildBlockNode b then
        (case parent of
           [] \<Rightarrow> Inl NilDereference
         | p # grandparent \<Rightarrow> GetBlockNodeForPath_loop k grandparent)
      else GetBlockNodeForPath_loop k parent)"

definition GetBlockNodeForPath :: "Chain \<Rightarrow> ValuePath \<Rightarrow> error + Chain" where
  "GetBlockNodeForPath sb path =
     (if Type path \<noteq> VPBlock then Inl ExpectedBlockTypeValuePath
      else case sb of
        [] \<Rightarrow> Inl NilDereference
      | _ # _ \<Rightarrow>
         (case GetBlockNodeForPath_loop (unat (Depth path) - 1) sb of
            Inl e \<Rightarrow> Inl e
          | Inr [] \<Rightarrow> Inr []
          | Inr (b # parent) \<Rightarrow>
             (if fauxChildBlockNode b then
                (case parent of
                   [] \<Rightarrow> Inl NilDereference
                 | pn # _ \<Rightarrow>
                    (if Index path < NumNames (block pn) then Inr parent
                     else Inr (b # parent)))
              else Inr (b # parent))))"

subsection \<open>Defining names\<close>

text \<open>
  The body of \<^verbatim>\<open>if !old.IsUndefined() && tv.T != nil\<close> in the redefinition branch of
  \<^verbatim>\<open>Define2\<close>. It returns the declared type and the typed value that are then
  stored, the block (with \<open>oldValues\<close> extended by a function upgrade) and the
  function-value store.
\<close>

definition Define2_redefine ::
  "Name \<Rightarrow> uint16 \<Rightarrow> TypedValue \<Rightarrow> GnoType option \<Rightarrow> TypedValue \<Rightarrow>
   StaticBlock \<times> FuncValueTypes \<Rightarrow>
   error + (GnoType option \<times> TypedValue \<times> StaticBlock \<times> FuncValueTypes)" where
  "Define2_redefine n idx old st tv s =
     (case T tv of
        None \<Rightarrow> Inr (st, tv, s)
      | Some t \<Rightarrow>
         (if IsUndefined old then Inr (st, tv, s)
          else if Kind t = FuncKind \<and> IsZero t then
            (case V tv of
               Some (FuncValue fv) \<Rightarrow>
                 Inr (T old, tv\<lparr>T := T old\<rparr>,
                      (fst s)\<lparr>oldValues := oldValues (fst s) @ [(idx, V old)]\<rparr>,
                      (snd s)(fv := T old))
             | _ \<Rightarrow> Inl TypeAssertionFailed)
          else
            (case T old of
               None \<Rightarrow> Inl NilDereference
             | Some ot \<Rightarrow>
                (if TypeID t \<noteq> TypeID ot then Inl (CannotChangeT n)
                 else if V tv \<noteq> V old then Inl (CannotChangeV n)
                 else Inr (st, tv, s)))))"

definition Define2 ::
  "bool \<Rightarrow> Name \<Rightarrow> GnoType option \<Rightarrow> TypedValue \<Rightarrow>
   StaticBlock \<times> FuncValueTypes \<Rightarrow> error + (StaticBlock \<times> FuncValueTypes)" where
  "Define2 isConst n st tv s =
     (let sb = fst s in
      if length n = 0 then Inl NameCannotBeZero
      else if unat (NumNames sb) \<noteq> length (Names sb) then Inl NumNamesMismatch
      else if NumNames sb = 0xFFFF then Inl TooManyVariables
      else if T tv = None \<and> V tv \<noteq> None then Inl RequiresTIfVIsSet
      else if n = blankIdentifier then Inr s
      else case GetLocalIndex sb n of
        (idx, True) \<Rightarrow>
          (if isConst \<noteq> getLocalIsConst sb n then Inl (CannotChangeConstStatus n)
           else if length (Values sb) \<le> unat idx then Inl IndexOutOfRange
           else case Define2_redefine n idx (Values sb ! unat idx) st tv s of
             Inl e \<Rightarrow> Inl e
           | Inr (st', tv', sb', fvs') \<Rightarrow>
              (if length (Types sb') \<le> unat idx then Inl IndexOutOfRange
               else Inr (sb'\<lparr>Values := (Values sb')[unat idx := tv'],
                              Types := (Types sb')[unat idx := st']\<rparr>, fvs')))
      | (idx, False) \<Rightarrow>
          Inr (sb\<lparr>Names := Names sb @ [n],
                  HeapItems := HeapItems sb @ [False],
                  Consts := (if isConst then Consts sb @ [n] else Consts sb),
                  NumNames := NumNames sb + 1,
                  Values := Values sb @ [tv],
                  Types := Types sb @ [st]\<rparr>, snd s))"

definition Define ::
  "Name \<Rightarrow> TypedValue \<Rightarrow> StaticBlock \<times> FuncValueTypes \<Rightarrow>
   error + (StaticBlock \<times> FuncValueTypes)" where
  "Define n tv s = Define2 False n (T tv) tv s"

definition Predefine ::
  "bool \<Rightarrow> Name \<Rightarrow> StaticBlock \<times> FuncValueTypes \<Rightarrow>
   error + (StaticBlock \<times> FuncValueTypes)" where
  "Predefine isConst n s =
     (case GetLocalIndex (fst s) n of
        (idx, True) \<Rightarrow> Inr s
      | (idx, False) \<Rightarrow> Define2 isConst n None (anyValue None) s)"

text \<open>A sequence of definitions on one block; a panic ends the sequence.\<close>

datatype BlockOp =
    CallDefine Name TypedValue
  | CallDefine2 bool Name "GnoType option" TypedValue
  | CallPredefine bool Name

fun call :: "BlockOp \<Rightarrow> StaticBlock \<times> FuncValueTypes \<Rightarrow>
    error + (StaticBlock \<times> FuncValueTypes)" where
  "call (CallDefine n tv) s = Define n tv s"
| "call (CallDefine2 isConst n st tv) s = Define2 isConst n st tv s"
| "call (CallPredefine isConst n) s = Predefine isConst n s"

fun calls :: "BlockOp list \<Rightarrow> StaticBlock \<times> FuncValueTypes \<Rightarrow>
    error + (StaticBlock \<times> FuncValueTypes)" where
  "calls [] s = Inr s"
| "calls (c # cs) s = (case call c s of Inl e \<Rightarrow> Inl e | Inr s' \<Rightarrow> calls cs s')"

subsection \<open>Crossing intent of a function body\<close>

text \<open>
  Expressions and statements by their node kind. \<open>NilExpr\<close> is the nil interface
  value. Only the fields that \<^verbatim>\<open>isCrossing\<close> reads are kept in full: the function
  expression of a call, the source of a constant expression, the name of a name
  expression and the expression of an expression statement.
\<close>

datatype Expr =
    NilExpr
  | NameExpr Name
  | BasicLitExpr string
  | BinaryExpr Expr Expr
  | CallExpr Expr "Expr list"
  | IndexExpr Expr Expr
  | SelectorExpr Expr Name
  | SliceExpr Expr
  | StarExpr Expr
  | RefExpr Expr
  | TypeAssertExpr Expr
  | UnaryExpr Expr
  | CompositeLitExpr "Expr list"
  | KeyValueExpr Expr Expr
  | FuncLitExpr
  | ConstExpr Expr

datatype Stmt =
    AssignStmt "Expr list" "Expr list"
  | BlockStmt
  | BranchStmt
  | DeclStmt
  | DeferStmt Expr
  | EmptyStmt
  | ExprStmt Expr
  | ForStmt
  | GoStmt Expr
  | IfStmt
  | IfCaseStmt
  | IncDecStmt Expr
  | RangeStmt
  | ReturnStmt "Expr list"
  | SelectStmt
  | SelectCaseStmt
  | SendStmt Expr Expr
  | SwitchStmt
  | SwitchClauseStmt
  | bodyStmt
  | ValueDecl
  | TypeDecl

type_synonym Body = "Stmt list"

fun unwrapConstExpr :: "Expr \<Rightarrow> Expr" where
  "unwrapConstExpr (ConstExpr source) = source"
| "unwrapConstExpr x = x"

text \<open>
  The receiver of \<^verbatim>\<open>(*CallExpr).isCrossing\<close> is a pointer: \<open>None\<close> is nil,
  \<open>Some (f, args)\<close> a call with function expression \<open>f\<close>.
\<close>

definition CallExpr_isCrossing :: "(Expr \<times> Expr list) option \<Rightarrow> bool" where
  "CallExpr_isCrossing x =
     (case x of
        None \<Rightarrow> False
      | Some (f, args) \<Rightarrow>
         (case unwrapConstExpr f of
            NameExpr nx \<Rightarrow> (if nx = ''crossing'' then True else False)
          | _ \<Rightarrow> False))"

text \<open>The type assertion \<^verbatim>\<open>xs.X.(*CallExpr)\<close>, which yields nil when it fails.\<close>

fun asCallExpr :: "Expr \<Rightarrow> (Expr \<times> Expr list) option" where
  "asCallExpr (CallExpr f args) = Some (f, args)"
| "asCallExpr x = None"

definition isCrossing :: "Body \<Rightarrow> bool" where
  "isCrossing ss =
     (case ss of
        [] \<Rightarrow> False
      | fs # _ \<Rightarrow>
         (case fs of
            ExprStmt x \<Rightarrow> CallExpr_isCrossing (asCallExpr x)
          | _ \<Rightarrow> False))"

definition IsCrossing :: "Body \<Rightarrow> bool" where
  "IsCrossing ss = isCrossing ss"

subsection \<open>Package names\<close>

text \<open>
  The pattern \<^verbatim>\<open>^[a-z][a-z0-9_]+$\<close> is a sequence of character classes, each with a
  repetition, between the two anchors. A character class is a list of inclusive ranges
  of bytes. \<open>match_items\<close> decides whether the whole string matches the sequence,
  which is what \<^verbatim>\<open>MatchString\<close> decides for a pattern anchored at both ends.
\<close>

datatype Repeat = Once | OneOrMore | ZeroOrMore

type_synonym CharClass = "(char \<times> char) list"

definition in_class :: "CharClass \<Rightarrow> char \<Rightarrow> bool" where
  "in_class cls c =
     list_ex (\<lambda>(lo, hi). (of_char lo :: nat) \<le> of_char c \<and> (of_char c :: nat) \<le> of_char hi) cls"

function match_items :: "(CharClass \<times> Repeat) list \<Rightarrow> string \<Rightarrow> bool" where
  "match_items [] s = (s = [])"
| "match_items ((cls, Once) # items) s =
     (case s of [] \<Rightarrow> False | c # cs \<Rightarrow> in_class cls c \<and> match_items items cs)"
| "match_items ((cls, OneOrMore) # items) s =
     (case s of
        [] \<Rightarrow> False
      | c # cs \<Rightarrow> in_class cls c \<and> match_items ((cls, ZeroOrMore) # items) cs)"
| "match_items ((cls, ZeroOrMore) # items) s =
     (match_items items s \<or>
      (case s of
         [] \<Rightarrow> False
       | c # cs \<Rightarrow> in_class cls c \<and> match_items ((cls, ZeroOrMore) # items) cs))"
  by pat_completeness auto
termination
  by (relation "measures [\<lambda>(items, s). length s, \<lambda>(items, s). length items]") auto

definition rePkgName :: "(CharClass \<times> Repeat) list" where
  "rePkgName =
     [([(CHR ''a'', CHR ''z'')], Once),
      ([(CHR ''a'', CHR ''z''), (CHR ''0'', CHR ''9''), (CHR ''_'', CHR ''_'')], OneOrMore)]"

definition validatePkgName :: "string \<Rightarrow> error option" where
  "validatePkgName name =
     (if \<not> match_items rePkgName name then Some (InvalidPackageName name) else None)"

text \<open>
  The rule as the documentation of \<^verbatim>\<open>ReadMemPackage\<close> words it: the name starts
  with a lowercase letter and its characters are lowercase letters, digits or
  underscores.
\<close>

definition lowercase :: "char \<Rightarrow> bool" where
  "lowercase c = ((of_char c :: nat) \<in> {97..122})"

definition digit :: "char \<Rightarrow> bool" where
  "digit c = ((of_char c :: nat) \<in> {48..57})"

definition documented_name :: "string \<Rightarrow> bool" where
  "documented_name s =
     (case s of
        [] \<Rightarrow> False
      | c # cs \<Rightarrow> lowercase c \<and> list_all (\<lambda>x. lowercase x \<or> digit x \<or> x = CHR ''_'') cs)"

text \<open>
  \<^verbatim>\<open>ReadMemPackageFromList\<close>. The file system (\<open>ReadFile\<close>), \<^verbatim>\<open>filepath.Base\<close>,
  the Go parser behind \<^verbatim>\<open>PackageNameFromFileBody\<close> and \<^verbatim>\<open>MemPackage.IsEmpty\<close>
  (package gnovm) are parameters.
\<close>

record MemFile =
  FileName :: string
  FileBody :: string

record MemPackage =
  PkgName :: string
  PkgPath :: string
  Files :: "MemFile list"

definition HasSuffix :: "string \<Rightarrow> string \<Rightarrow> bool" where
  "HasSuffix s suffix =
     (length suffix \<le> length s \<and> drop (length s - length suffix) s = suffix)"

fun ReadMemPackageFromList_loop ::
  "(string \<Rightarrow> error + string) \<Rightarrow> (string \<Rightarrow> string) \<Rightarrow>
   (string \<Rightarrow> string \<Rightarrow> error + Name) \<Rightarrow> string list \<Rightarrow> MemFile list \<times> Name \<Rightarrow>
   error + (MemFile list \<times> Name)" where
  "ReadMemPackageFromList_loop ReadFile Base PackageNameFromFileBody [] acc = Inr acc"
| "ReadMemPackageFromList_loop ReadFile Base PackageNameFromFileBody (fpath # list) acc =
     (let fname = Base fpath in
      case ReadFile fpath of
        Inl e \<Rightarrow> Inl e
      | Inr bz \<Rightarrow>
         (case (if snd acc = [] \<and> HasSuffix fname ''.gno'' then
                  (case PackageNameFromFileBody fname bz of
                     Inl e \<Rightarrow> Inl e
                   | Inr pkgName \<Rightarrow>
                       Inr (if HasSuffix pkgName ''_test''
                            then take (length pkgName - length ''_test'') pkgName
                            else pkgName))
                else Inr (snd acc)) of
            Inl e \<Rightarrow> Inl e
          | Inr pkgName \<Rightarrow>
              ReadMemPackageFromList_loop ReadFile Base PackageNameFromFileBody list
                (fst acc @ [\<lparr>FileName = fname, FileBody = bz\<rparr>], pkgName)))"

definition ReadMemPackageFromList ::
  "(string \<Rightarrow> error + string) \<Rightarrow> (string \<Rightarrow> string) \<Rightarrow>
   (string \<Rightarrow> string \<Rightarrow> error + Name) \<Rightarrow> (MemPackage \<Rightarrow> bool) \<Rightarrow>
   string list \<Rightarrow> string \<Rightarrow> error + MemPackage" where
  "ReadMemPackageFromList ReadFile Base PackageNameFromFileBody IsEmpty list pkgPath =
     (case ReadMemPackageFromList_loop ReadFile Base PackageNameFromFileBody list ([], []) of
        Inl e \<Rightarrow> Inl e
      | Inr (files, pkgName) \<Rightarrow>
         (let memPkg = \<lparr>PkgName = pkgName, PkgPath = pkgPath, Files = files\<rparr> in
          if \<not> IsEmpty memPkg then
            (case validatePkgName pkgName of
               Some err \<Rightarrow> Inl err
             | None \<Rightarrow> Inr memPkg)
          else Inr memPkg))"

subsection \<open>Example scopes\<close>

text \<open>
  A block node of kind \<open>k\<close> in which \<open>names\<close> have been reserved in order, as
  \<^verbatim>\<open>InitStaticBlock\<close> followed by one \<^verbatim>\<open>Predefine(false, n)\<close> for each name
  leaves it.
\<close>

definition reserved :: "NodeType \<Rightarrow> Name list \<Rightarrow> BlockNode" where
  "reserved k names =
     \<lparr>node = k,
      block = \<lparr>Values = map (\<lambda>_. anyValue None) names, Types = map (\<lambda>_. None) names,
               NumNames = of_nat (length names), Names = names,
               HeapItems = map (\<lambda>_. False) names, UnassignableNames = [], Consts = [],
               Externs = [], oldValues = []\<rparr>\<rparr>"

text \<open>A function declaration in a file of a package that declares \<open>x\<close>.\<close>

definition file_chain :: Chain where
  "file_chain = [reserved NFuncDecl [], reserved NFileNode [], reserved NPackageNode [''x'']]"

text \<open>A universe block with two names.\<close>

definition small_uverse :: StaticBlock where
  "small_uverse = block (reserved NPackageNode [''nil'', ''len''])"

text \<open>Three types, as \<^verbatim>\<open>Define2\<close> observes them, and a store without function values.\<close>

definition int_type :: GnoType where
  "int_type = \<lparr>Kind = OtherKind 0, TypeID = ''int'', IsZero = False\<rparr>"

definition func_type :: GnoType where
  "func_type = \<lparr>Kind = FuncKind, TypeID = ''func()'', IsZero = False\<rparr>"

definition zero_func_type :: GnoType where
  "zero_func_type = \<lparr>Kind = FuncKind, TypeID = ''func'', IsZero = True\<rparr>"

definition no_funcs :: FuncValueTypes where
  "no_funcs = (\<lambda>_. None)"

text \<open>
  The block after \<^verbatim>\<open>InitStaticBlock\<close> and one \<^verbatim>\<open>Define2(isConst, n, t, tv)\<close>
  with \<^verbatim>\<open>tv = TypedValue{T: t, V: v}\<close>.
\<close>

definition defined :: "Name \<Rightarrow> bool \<Rightarrow> GnoType \<Rightarrow> Value option \<Rightarrow> StaticBlock" where
  "defined n isConst t v =
     \<lparr>Values = [\<lparr>T = Some t, V = v\<rparr>], Types = [Some t], NumNames = 1, Names = [n],
      HeapItems = [False], UnassignableNames = [], Consts = (if isConst then [n] else []),
      Externs = [], oldValues = []\<rparr>"

text \<open>The block \<open>defined ''x'' False int_type None\<close> after \<open>y\<close> was defined and \<open>z\<close> reserved as a constant.\<close>

definition xyz_block :: StaticBlock where
  "xyz_block =
     \<lparr>Values = [\<lparr>T = Some int_type, V = None\<rparr>, \<lparr>T = Some int_type, V = None\<rparr>,
                \<lparr>T = None, V = None\<rparr>],
      Types = [Some int_type, Some int_type, None], NumNames = 3,
      Names = [''x'', ''y'', ''z''], HeapItems = [False, False, False],
      UnassignableNames = [], Consts = [''z''], Externs = [], oldValues = []\<rparr>"

subsection \<open>Faux blocks\<close>

text \<open>
  The shape that the walk of \<^verbatim>\<open>GetBlockNodeForPath\<close> relies on. A faux child (an
  \<^verbatim>\<open>IfCaseStmt\<close> or a \<^verbatim>\<open>SwitchClauseStmt\<close>) has its faux parent (the
  \<^verbatim>\<open>IfStmt\<close> or the \<^verbatim>\<open>SwitchStmt\<close>) as parent, and the two declare the same
  names at the indices they share: the preprocessor copies the names of the faux parent
  into the faux child when it opens the child.
\<close>

fun faux_consistent :: "Chain \<Rightarrow> bool" where
  "faux_consistent [] = True"
| "faux_consistent [b] = (\<not> fauxChildBlockNode b)"
| "faux_consistent (b # pn # rest) =
     ((if fauxChildBlockNode b then
         (node b = NIfCaseStmt \<and> node pn = NIfStmt
            \<or> node b = NSwitchClauseStmt \<and> node pn = NSwitchStmt)
         \<and> take (length (Names (block b))) (Names (block pn))
             = take (length (Names (block pn))) (Names (block b))
       else True)
      \<and> faux_consistent (pn # rest))"

text \<open>
  Every block of the chain holds as many names as \<^verbatim>\<open>NumNames\<close> says, which
  \<^verbatim>\<open>Define2\<close> checks on every call.
\<close>

definition counted :: "Chain \<Rightarrow> bool" where
  "counted sb = list_all (\<lambda>b. unat (NumNames (block b)) = length (Names (block b))) sb"

text \<open>
  An if-clause that declares \<open>x\<close> after the name \<open>c\<close> copied from its
  \<^verbatim>\<open>IfStmt\<close>, inside a function that declares \<open>y\<close>; and an if-clause whose
  first name is not the first name of its \<^verbatim>\<open>IfStmt\<close>.
\<close>

definition if_chain :: Chain where
  "if_chain = [reserved NIfCaseStmt [''c'', ''x''], reserved NIfStmt [''c''],
               reserved NFuncDecl [''y'']]"

definition shadowed_chain :: Chain where
  "shadowed_chain = [reserved NIfCaseStmt [''x''], reserved NIfStmt [''y'']]"

section \<open>Properties\<close>


subsection \<open>Lookup and value-path lemmas\<close>

lemmas VPType_defs =
  VPUverse_def VPBlock_def VPField_def VPValMethod_def VPPtrMethod_def VPInterface_def
  VPSubrefField_def VPDerefField_def VPDerefValMethod_def VPDerefPtrMethod_def
  VPDerefInterface_def

lemmas NewValuePath_variants =
  NewValuePathUverse_def NewValuePathBlock_def NewValuePathField_def
  NewValuePathValMethod_def NewValuePathPtrMethod_def NewValuePathInterface_def
  NewValuePathSubrefField_def NewValuePathDerefField_def NewValuePathDerefValMethod_def
  NewValuePathDerefPtrMethod_def NewValuePathDerefInterface_def

lemma GetLocalIndex_loop_found: "snd (GetLocalIndex_loop names n i) = (n \<in> set names)"
  by (induction names arbitrary: i) auto

lemma GetLocalIndex_found: "snd (GetLocalIndex sb n) = (n \<in> set (Names sb))"
  by (simp add: GetLocalIndex_def GetLocalIndex_loop_found)

lemma GetLocalIndex_absent:
  "n \<notin> set (Names sb) \<Longrightarrow> GetLocalIndex sb n = (0, False)"
  unfolding GetLocalIndex_def
proof -
  have "n \<notin> set names \<Longrightarrow> GetLocalIndex_loop names n i = (0, False)" for names i
    by (induction names arbitrary: i) auto
  then show "n \<notin> set (Names sb) \<Longrightarrow> GetLocalIndex_loop (Names sb) n 0 = (0, False)" .
qed

lemma validateDepth_ok: "validateDepth vp = Inr u \<Longrightarrow> unat (Depth vp) \<le> 127"
  by (simp add: validateDepth_def MaxValuePathDepth_def split: if_splits)

lemma Validate_depth: "Validate vp = Inr u \<Longrightarrow> unat (Depth vp) \<le> 127"
  unfolding Validate_def
  by (cases "validateDepth vp") (auto dest: validateDepth_ok)

lemma Validate_too_deep: "127 < unat (Depth vp) \<Longrightarrow> Validate vp = Inl ExceededMaximumDepth"
  by (simp add: Validate_def validateDepth_def MaxValuePathDepth_def)

lemma NewValuePath_fields:
  "NewValuePath t d i n = Inr p \<Longrightarrow> p = \<lparr>Type = t, Depth = d, Index = i, Name = n\<rparr>"
  by (auto simp: NewValuePath_def Let_def split: sum.splits)

lemma NewValuePath_depth: "NewValuePath t d i n = Inr p \<Longrightarrow> unat (Depth p) \<le> 127"
  by (auto simp: NewValuePath_def Let_def split: sum.splits dest: Validate_depth)

lemma NewValuePath_too_deep:
  "127 < unat d \<Longrightarrow> NewValuePath t d i n = Inl ExceededMaximumDepth"
  by (simp add: NewValuePath_def Let_def Validate_too_deep)

lemma NewValuePathBlock_ok:
  "unat d \<le> 127 \<Longrightarrow>
   NewValuePathBlock d i n = Inr \<lparr>Type = VPBlock, Depth = d, Index = i, Name = n\<rparr>"
  by (simp add: NewValuePathBlock_def NewValuePath_def Validate_def validateDepth_def
      MaxValuePathDepth_def VPType_defs)

lemma NewValuePathUverse_ok:
  "NewValuePathUverse i n = Inr \<lparr>Type = VPUverse, Depth = 0, Index = i, Name = n\<rparr>"
  by (simp add: NewValuePathUverse_def NewValuePath_def Validate_def validateDepth_def
      MaxValuePathDepth_def must_def)

lemma ancestors_depth:
  "GetPathForName_ancestors n gen fc sn = Inr (Some p, sn') \<Longrightarrow> unat (Depth p) \<le> 127"
proof (induction sn arbitrary: gen fc sn')
  case Nil
  then show ?case by simp
next
  case (Cons b parent)
  show ?case
  proof (cases "snd (GetLocalIndex (block b) n)")
    case True
    then obtain idx where "GetLocalIndex (block b) n = (idx, True)"
      by (cases "GetLocalIndex (block b) n") auto
    with Cons.prems show ?thesis
      by (auto simp: NewValuePathBlock_def split: if_splits sum.splits
          dest: NewValuePath_depth)
  next
    case False
    then obtain idx where "GetLocalIndex (block b) n = (idx, False)"
      by (cases "GetLocalIndex (block b) n") auto
    with Cons.prems Cons.IH show ?thesis
      by (auto split: sum.splits prod.splits)
  qed
qed

lemma GetPathForName_depth:
  "GetPathForName uverse sb n = Inr (p, sb') \<Longrightarrow> unat (Depth p) \<le> 127"
  unfolding GetPathForName_def NewValuePathBlock_def NewValuePathUverse_def
  by (auto split: if_splits sum.splits list.splits prod.splits bool.splits option.splits
      dest: NewValuePath_depth ancestors_depth)

lemmas eval_defs =
  GetPathForName_def GetLocalIndex_def blankIdentifier_def fauxChildBlockNode_def
  noteExtern_def isFile_def addExternName_def NewValuePathBlock_def NewValuePathUverse_def
  NewValuePath_def Validate_def validateDepth_def MaxValuePathDepth_def VPBlock_def
  VPUverse_def must_def reserved_def anyValue_def

lemma file_chain_x:
  "GetPathForName small_uverse file_chain ''x''
     = Inr (\<lparr>Type = VPBlock, Depth = 3, Index = 0, Name = ''x''\<rparr>,
            [noteExtern (reserved NFuncDecl []) ''x'', reserved NFileNode [],
             reserved NPackageNode [''x'']])"
  by (simp add: file_chain_def small_uverse_def eval_defs)

subsection \<open>Resolution\<close>

lemma noteExtern_simps:
  "node (noteExtern b n) = node b"
  "Names (block (noteExtern b n)) = Names (block b)"
  "NumNames (block (noteExtern b n)) = NumNames (block b)"
  "GetLocalIndex (block (noteExtern b n)) n' = GetLocalIndex (block b) n'"
  "fauxChildBlockNode (noteExtern b n) = fauxChildBlockNode b"
  "isFile (noteExtern b n) = isFile b"
  "noteExtern (noteExtern b n) n = noteExtern b n"
  by (simp_all add: noteExtern_def addExternName_def GetLocalIndex_def
      fauxChildBlockNode_def isFile_def)

lemma GetLocalIndex_cases:
  obtains idx where "n \<in> set (Names sb)" "GetLocalIndex sb n = (idx, True)"
  | "n \<notin> set (Names sb)" "GetLocalIndex sb n = (0, False)"
  using GetLocalIndex_found [of sb n] GetLocalIndex_absent [of n sb]
  by (cases "GetLocalIndex sb n") auto

lemma ancestors_idem:
  "GetPathForName_ancestors n gen fc sn = Inr (r, sn') \<Longrightarrow>
   GetPathForName_ancestors n gen fc sn' = Inr (r, sn')"
proof (induction sn arbitrary: gen fc sn')
  case Nil
  then show ?case by simp
next
  case (Cons b parent)
  show ?case
  proof (cases rule: GetLocalIndex_cases [of n "block b"])
    case (1 idx)
    with Cons.prems show ?thesis
      by (auto split: if_splits sum.splits)
  next
    case 2
    with Cons.prems obtain parent' where
      a: "GetPathForName_ancestors n (gen + 1)
            (if fauxChildBlockNode b then fc + 1 else fc) parent = Inr (r, parent')"
      and s: "sn' = noteExtern b n # parent'"
      by (auto split: sum.splits)
    from Cons.IH [OF a] 2 s show ?thesis
      by (simp add: noteExtern_simps)
  qed
qed

lemma ancestors_chain:
  "GetPathForName_ancestors n gen fc sn = Inr (r, sn') \<Longrightarrow>
   sn' = map (\<lambda>b. noteExtern b n) (takeWhile (\<lambda>b. n \<notin> set (Names (block b))) sn)
         @ dropWhile (\<lambda>b. n \<notin> set (Names (block b))) sn"
proof (induction sn arbitrary: gen fc sn')
  case Nil
  then show ?case by simp
next
  case (Cons b parent)
  show ?case
  proof (cases rule: GetLocalIndex_cases [of n "block b"])
    case (1 idx)
    with Cons.prems show ?thesis
      by (auto split: if_splits sum.splits)
  next
    case 2
    with Cons.prems Cons.IH show ?thesis
      by (auto split: sum.splits)
  qed
qed

lemma ancestors_undeclared:
  "\<forall>b\<in>set sn. n \<notin> set (Names (block b)) \<Longrightarrow>
   GetPathForName_ancestors n gen fc sn = Inr (None, map (\<lambda>b. noteExtern b n) sn)"
proof (induction sn arbitrary: gen fc)
  case Nil
  then show ?case by simp
next
  case (Cons b parent)
  then show ?case by (simp add: GetLocalIndex_absent)
qed

lemma ancestors_found:
  "GetPathForName_ancestors n gen fc sn = Inr (Some p, sn') \<Longrightarrow>
   \<exists>b\<in>set sn. n \<in> set (Names (block b))"
proof (induction sn arbitrary: gen fc sn')
  case Nil
  then show ?case by simp
next
  case (Cons b parent)
  show ?case
  proof (cases rule: GetLocalIndex_cases [of n "block b"])
    case (1 idx)
    then show ?thesis by simp
  next
    case 2
    with Cons.prems Cons.IH show ?thesis
      by (fastforce split: sum.splits)
  qed
qed

lemma GetPathForName_again:
  assumes "GetPathForName uverse sb n = Inr (p, sb')"
  shows "GetPathForName uverse sb' n = Inr (p, sb')"
proof (cases "n = blankIdentifier")
  case True
  with assms show ?thesis
    by (auto simp: GetPathForName_def split: sum.splits)
next
  case nb: False
  with assms obtain sn parent where sb: "sb = sn # parent"
    by (cases sb) (auto simp: GetPathForName_def)
  show ?thesis
  proof (cases rule: GetLocalIndex_cases [of n "block sn"])
    case (1 idx)
    with assms nb sb show ?thesis
      by (auto simp: GetPathForName_def split: sum.splits)
  next
    case 2
    with assms nb sb obtain r parent' where
      a: "GetPathForName_ancestors n 2 (if fauxChildBlockNode sn then 1 else 0) parent
            = Inr (r, parent')"
      and s: "sb' = noteExtern sn n # parent'"
      by (auto simp: GetPathForName_def split: sum.splits option.splits prod.splits bool.splits)
    from assms nb sb 2 a s ancestors_idem [OF a] show ?thesis
      by (auto simp: GetPathForName_def noteExtern_simps
          split: sum.splits option.splits prod.splits bool.splits)
  qed
qed

text \<open>
  C1. Resolution is idempotent. When \<^verbatim>\<open>GetPathForName\<close> returns a path for a
  name, a second call on the scope chain as the first call left it returns the same path
  (type, depth, index and name) and leaves the chain, and so every extern list,
  unchanged; \<^verbatim>\<open>addExternName\<close> does not append a name that is already present.
\<close>

theorem resolution_is_idempotent:
  assumes "GetPathForName uverse sb n = Inr (p, sb')"
  shows "GetPathForName uverse sb' n = Inr (p, sb')
    \<and> (\<forall>b\<in>set sb'. n \<in> set (Externs (block b)) \<longrightarrow> addExternName (block b) n = block b)"
  using GetPathForName_again [OF assms] by (simp add: addExternName_def)

theorem resolution_is_idempotent_witness:
  "GetPathForName small_uverse file_chain ''x''
     = Inr (\<lparr>Type = VPBlock, Depth = 3, Index = 0, Name = ''x''\<rparr>,
            [noteExtern (reserved NFuncDecl []) ''x'', reserved NFileNode [],
             reserved NPackageNode [''x'']])
   \<and> GetPathForName small_uverse
        [noteExtern (reserved NFuncDecl []) ''x'', reserved NFileNode [],
         reserved NPackageNode [''x'']] ''x''
     = Inr (\<lparr>Type = VPBlock, Depth = 3, Index = 0, Name = ''x''\<rparr>,
            [noteExtern (reserved NFuncDecl []) ''x'', reserved NFileNode [],
             reserved NPackageNode [''x'']])"
  using resolution_is_idempotent [OF file_chain_x] file_chain_x by simp

text \<open>
  C3. Resolving a name that no scope of the chain declares and that the universe block
  does not declare either panics with "name not declared": for every block node (a
  non-empty chain) and every name other than the blank identifier, \<^verbatim>\<open>GetPathForName\<close>
  returns no path.
\<close>

theorem undeclared_name_is_fatal:
  assumes "sb \<noteq> []" and "n \<noteq> blankIdentifier"
    and "\<forall>b\<in>set sb. n \<notin> set (Names (block b))"
    and "n \<notin> set (Names uverse)"
  shows "GetPathForName uverse sb n = Inl (NameNotDeclared n)"
proof -
  from assms(1) obtain sn parent where sb: "sb = sn # parent"
    by (cases sb) auto
  with assms(3) have "n \<notin> set (Names (block sn))"
    and "\<forall>b\<in>set parent. n \<notin> set (Names (block b))"
    by auto
  then show ?thesis
    using assms(2,4) sb
    by (simp add: GetPathForName_def GetLocalIndex_absent ancestors_undeclared)
qed

theorem undeclared_name_is_fatal_witness:
  "GetPathForName small_uverse file_chain ''y'' = Inl (NameNotDeclared ''y'')"
  using undeclared_name_is_fatal [of file_chain "''y''" small_uverse]
  by (simp add: file_chain_def small_uverse_def reserved_def blankIdentifier_def)

lemma GetPathForName_chain:
  assumes "GetPathForName uverse sb n = Inr (p, sb')" and "n \<noteq> blankIdentifier"
  shows "sb' = map (\<lambda>b. noteExtern b n) (takeWhile (\<lambda>b. n \<notin> set (Names (block b))) sb)
               @ dropWhile (\<lambda>b. n \<notin> set (Names (block b))) sb"
proof -
  from assms obtain sn parent where sb: "sb = sn # parent"
    by (cases sb) (auto simp: GetPathForName_def)
  show ?thesis
  proof (cases rule: GetLocalIndex_cases [of n "block sn"])
    case (1 idx)
    with assms sb show ?thesis
      by (auto simp: GetPathForName_def split: sum.splits)
  next
    case 2
    with assms sb obtain r parent' where
      a: "GetPathForName_ancestors n 2 (if fauxChildBlockNode sn then 1 else 0) parent
            = Inr (r, parent')"
      and s: "sb' = noteExtern sn n # parent'"
      by (auto simp: GetPathForName_def split: sum.splits option.splits prod.splits bool.splits)
    from ancestors_chain [OF a] s 2 sb show ?thesis
      by simp
  qed
qed

text \<open>
  C5, as the claim states it, fails: a file node that is traversed without declaring the
  name records no extern. The function declaration below resolves \<open>x\<close> through its
  file to the package; the file's extern list stays empty.
\<close>

theorem file_scope_records_no_extern:
  "GetPathForName small_uverse file_chain ''x''
     = Inr (\<lparr>Type = VPBlock, Depth = 3, Index = 0, Name = ''x''\<rparr>,
            [noteExtern (reserved NFuncDecl []) ''x'', reserved NFileNode [],
             reserved NPackageNode [''x'']])
   \<and> ''x'' \<notin> set (Names (block (file_chain ! 1)))
   \<and> ''x'' \<notin> set (Externs (block (reserved NFileNode [])))"
  by (simp add: file_chain_def small_uverse_def eval_defs)

text \<open>
  C5, amended. During \<^verbatim>\<open>GetPathForName\<close> of a name other than the blank
  identifier, the scopes traversed are those before the first scope of the chain that
  declares the name. Each traversed scope that is not a file node records the name with
  \<^verbatim>\<open>addExternName\<close> and then has it in its extern list; a traversed file node, the
  declaring scope and every scope beyond it are left as they were. In particular a name
  found in the local scope changes nothing.
\<close>

theorem extern_recording:
  assumes "GetPathForName uverse sb n = Inr (p, sb')" and "n \<noteq> blankIdentifier"
  shows "sb' = map (\<lambda>b. if isFile b then b else b\<lparr>block := addExternName (block b) n\<rparr>)
                 (takeWhile (\<lambda>b. n \<notin> set (Names (block b))) sb)
               @ dropWhile (\<lambda>b. n \<notin> set (Names (block b))) sb
    \<and> (\<forall>b\<in>set (takeWhile (\<lambda>b. n \<notin> set (Names (block b))) sb).
          \<not> isFile b \<longrightarrow> n \<in> set (Externs (addExternName (block b) n)))"
proof -
  have "(\<lambda>b. if isFile b then b else b\<lparr>block := addExternName (block b) n\<rparr>)
      = (\<lambda>b. noteExtern b n)"
    by (auto simp: noteExtern_def)
  with GetPathForName_chain [OF assms] show ?thesis
    by (simp add: addExternName_def)
qed

theorem extern_recording_witness:
  "GetPathForName small_uverse file_chain ''x''
     = Inr (\<lparr>Type = VPBlock, Depth = 3, Index = 0, Name = ''x''\<rparr>,
            [(reserved NFuncDecl [])\<lparr>block := addExternName (block (reserved NFuncDecl [])) ''x''\<rparr>,
             reserved NFileNode [], reserved NPackageNode [''x'']])
   \<and> ''x'' \<noteq> blankIdentifier
   \<and> ''x'' \<in> set (Externs (addExternName (block (reserved NFuncDecl [])) ''x''))"
proof -
  have r: "GetPathForName small_uverse file_chain ''x''
     = Inr (\<lparr>Type = VPBlock, Depth = 3, Index = 0, Name = ''x''\<rparr>,
            [noteExtern (reserved NFuncDecl []) ''x'', reserved NFileNode [],
             reserved NPackageNode [''x'']])"
    by (rule file_chain_x)
  have nb: "''x'' \<noteq> blankIdentifier"
    by (simp add: blankIdentifier_def)
  from extern_recording [OF r nb] r nb show ?thesis
    by (simp add: file_chain_def reserved_def isFile_def noteExtern_def)
qed

subsection \<open>Depth of a value path\<close>

text \<open>
  C7. Every value path built by \<^verbatim>\<open>NewValuePath\<close>, by one of its variants or by
  \<^verbatim>\<open>SetDepth\<close> has a depth of at most \<^verbatim>\<open>MaxValuePathDepth\<close> = 127; building
  or setting a larger depth panics; and a path returned by \<^verbatim>\<open>GetPathForName\<close> never
  exceeds the bound, whatever the scope chain.
\<close>

theorem value_path_depth_bound:
  "(\<forall>p. NewValuePath t d i n = Inr p \<longrightarrow> unat (Depth p) \<le> MaxValuePathDepth)
   \<and> (\<forall>r\<in>set [NewValuePathUverse i n, NewValuePathBlock d i n, NewValuePathField d i n,
            NewValuePathValMethod i n, NewValuePathPtrMethod i n, NewValuePathInterface n,
            NewValuePathSubrefField d i n, NewValuePathDerefField d i n,
            NewValuePathDerefValMethod i n, NewValuePathDerefPtrMethod i n,
            NewValuePathDerefInterface n].
        \<forall>p. r = Inr p \<longrightarrow> unat (Depth p) \<le> MaxValuePathDepth)
   \<and> (\<forall>p. SetDepth vp d = Inr p \<longrightarrow> unat (Depth p) \<le> MaxValuePathDepth)
   \<and> (MaxValuePathDepth < unat d \<longrightarrow>
        NewValuePath t d i n = Inl ExceededMaximumDepth
        \<and> NewValuePathBlock d i n = Inl ExceededMaximumDepth
        \<and> NewValuePathField d i n = Inl ExceededMaximumDepth
        \<and> NewValuePathSubrefField d i n = Inl ExceededMaximumDepth
        \<and> NewValuePathDerefField d i n = Inl ExceededMaximumDepth
        \<and> SetDepth vp d = Inl ExceededMaximumDepth)
   \<and> (\<forall>p sb'. GetPathForName uverse sb nm = Inr (p, sb') \<longrightarrow>
        unat (Depth p) \<le> MaxValuePathDepth)"
proof (intro conjI)
  show "\<forall>p. NewValuePath t d i n = Inr p \<longrightarrow> unat (Depth p) \<le> MaxValuePathDepth"
    by (auto simp: MaxValuePathDepth_def dest: NewValuePath_depth)
  show "\<forall>r\<in>set [NewValuePathUverse i n, NewValuePathBlock d i n, NewValuePathField d i n,
            NewValuePathValMethod i n, NewValuePathPtrMethod i n, NewValuePathInterface n,
            NewValuePathSubrefField d i n, NewValuePathDerefField d i n,
            NewValuePathDerefValMethod i n, NewValuePathDerefPtrMethod i n,
            NewValuePathDerefInterface n].
        \<forall>p. r = Inr p \<longrightarrow> unat (Depth p) \<le> MaxValuePathDepth"
    unfolding NewValuePath_variants
    by (auto simp: MaxValuePathDepth_def dest: NewValuePath_depth)
  show "\<forall>p. SetDepth vp d = Inr p \<longrightarrow> unat (Depth p) \<le> MaxValuePathDepth"
    by (auto simp: SetDepth_def Let_def validateDepth_def split: if_splits)
  show "MaxValuePathDepth < unat d \<longrightarrow>
        NewValuePath t d i n = Inl ExceededMaximumDepth
        \<and> NewValuePathBlock d i n = Inl ExceededMaximumDepth
        \<and> NewValuePathField d i n = Inl ExceededMaximumDepth
        \<and> NewValuePathSubrefField d i n = Inl ExceededMaximumDepth
        \<and> NewValuePathDerefField d i n = Inl ExceededMaximumDepth
        \<and> SetDepth vp d = Inl ExceededMaximumDepth"
    unfolding NewValuePath_variants
    by (simp add: MaxValuePathDepth_def NewValuePath_too_deep SetDepth_def validateDepth_def)
  show "\<forall>p sb'. GetPathForName uverse sb nm = Inr (p, sb') \<longrightarrow>
        unat (Depth p) \<le> MaxValuePathDepth"
    by (auto simp: MaxValuePathDepth_def dest: GetPathForName_depth)
qed

theorem value_path_depth_bound_witness:
  "NewValuePath VPBlock 127 2 ''x'' = Inr \<lparr>Type = VPBlock, Depth = 127, Index = 2, Name = ''x''\<rparr>
   \<and> unat (Depth \<lparr>Type = VPBlock, Depth = 127, Index = 2, Name = ''x''\<rparr>) \<le> MaxValuePathDepth
   \<and> MaxValuePathDepth < unat (128 :: uint8)
   \<and> NewValuePath VPBlock 128 2 ''x'' = Inl ExceededMaximumDepth
   \<and> SetDepth \<lparr>Type = VPBlock, Depth = 1, Index = 2, Name = ''x''\<rparr> 128
       = Inl ExceededMaximumDepth"
  using value_path_depth_bound [of VPBlock 127 2 "''x''"
      "\<lparr>Type = VPBlock, Depth = 1, Index = 2, Name = ''x''\<rparr>" small_uverse file_chain "''x''"]
    value_path_depth_bound [of VPBlock 128 2 "''x''"
      "\<lparr>Type = VPBlock, Depth = 1, Index = 2, Name = ''x''\<rparr>" small_uverse file_chain "''x''"]
  by (simp add: NewValuePath_def Validate_def validateDepth_def MaxValuePathDepth_def VPType_defs)

subsection \<open>Definitions in a block\<close>

lemma GetLocalIndex_loop_eq:
  "GetLocalIndex_loop names n i =
     (if n \<in> set names then (of_nat (i + length (takeWhile (\<lambda>x. x \<noteq> n) names)), True)
      else (0, False))"
  by (induction names arbitrary: i) auto

lemma GetLocalIndex_eq:
  "GetLocalIndex sb n =
     (if n \<in> set (Names sb) then (of_nat (length (takeWhile (\<lambda>x. x \<noteq> n) (Names sb))), True)
      else (0, False))"
  by (simp add: GetLocalIndex_def GetLocalIndex_loop_eq)

lemma first_index_less: "n \<in> set names \<Longrightarrow> length (takeWhile (\<lambda>x. x \<noteq> n) names) < length names"
  by (induction names) auto

lemma GetLocalIndex_unat:
  assumes "GetLocalIndex sb n = (idx, True)" and "unat (NumNames sb) = length (Names sb)"
  shows "unat idx = length (takeWhile (\<lambda>x. x \<noteq> n) (Names sb))"
    and "unat idx < length (Names sb)"
proof -
  let ?j = "length (takeWhile (\<lambda>x. x \<noteq> n) (Names sb))"
  from assms(1) have n: "n \<in> set (Names sb)" and idx: "idx = of_nat ?j"
    by (auto simp: GetLocalIndex_eq split: if_splits)
  have "length (Names sb) < 2 ^ 16"
    using unsigned_less [of "NumNames sb", where 'a = nat] assms(2) by simp
  with first_index_less [OF n] have "?j < 2 ^ 16" by simp
  then have "unat (of_nat ?j :: uint16) = ?j"
    by (simp add: unat_of_nat)
  with idx first_index_less [OF n] show "unat idx = ?j" and "unat idx < length (Names sb)"
    by simp_all
qed

lemma GetLocalIndex_loop_append:
  "n \<in> set names \<Longrightarrow> GetLocalIndex_loop (names @ new) n i = GetLocalIndex_loop names n i"
  by (induction names arbitrary: i) auto

lemma GetLocalIndex_Names:
  "Names sb' = Names sb @ new \<Longrightarrow> GetLocalIndex sb n = (idx, True) \<Longrightarrow>
   GetLocalIndex sb' n = (idx, True)"
  using GetLocalIndex_found [of sb n]
  by (simp add: GetLocalIndex_def GetLocalIndex_loop_append)

lemma Define2_redefine_Names:
  "Define2_redefine n idx old st tv s = Inr (st', tv', sb', fvs') \<Longrightarrow>
   Names sb' = Names (fst s) \<and> Values sb' = Values (fst s) \<and> Types sb' = Types (fst s)
   \<and> NumNames sb' = NumNames (fst s) \<and> Consts sb' = Consts (fst s)
   \<and> HeapItems sb' = HeapItems (fst s)"
  by (auto simp: Define2_redefine_def split: option.splits if_splits Value.splits)

lemma Define2_present:
  assumes "Define2 isConst n st tv s = Inr s'" and "GetLocalIndex (fst s) n = (idx, True)"
  shows "Names (fst s') = Names (fst s) \<and> NumNames (fst s') = NumNames (fst s)
    \<and> HeapItems (fst s') = HeapItems (fst s) \<and> Consts (fst s') = Consts (fst s)
    \<and> (\<exists>tv'. Values (fst s') = (Values (fst s))[unat idx := tv'])
    \<and> (\<exists>st'. Types (fst s') = (Types (fst s))[unat idx := st'])"
proof (cases "n = blankIdentifier")
  case True
  with assms(1) have "s' = s"
    by (simp add: Define2_def Let_def split: if_splits)
  then show ?thesis
    by (auto intro: exI [of _ "Values (fst s) ! unat idx"] exI [of _ "Types (fst s) ! unat idx"])
next
  case False
  with assms obtain st' tv' sb' fvs' where
    r: "Define2_redefine n idx (Values (fst s) ! unat idx) st tv s = Inr (st', tv', sb', fvs')"
    and s': "s' = (sb'\<lparr>Values := (Values sb')[unat idx := tv'],
                        Types := (Types sb')[unat idx := st']\<rparr>, fvs')"
    by (auto simp: Define2_def Let_def split: if_splits sum.splits)
  from Define2_redefine_Names [OF r] s' show ?thesis
    by auto
qed

lemma Define2_absent:
  assumes "Define2 isConst n st tv s = Inr s'" and "n \<notin> set (Names (fst s))"
    and "n \<noteq> blankIdentifier"
  shows "Names (fst s') = Names (fst s) @ [n] \<and> Values (fst s') = Values (fst s) @ [tv]
    \<and> Types (fst s') = Types (fst s) @ [st] \<and> HeapItems (fst s') = HeapItems (fst s) @ [False]
    \<and> NumNames (fst s') = NumNames (fst s) + 1"
  using assms
  by (auto simp: Define2_def Let_def GetLocalIndex_absent split: if_splits)

lemma Define2_Names:
  assumes "Define2 isConst n st tv s = Inr s'"
  shows "\<exists>new. Names (fst s') = Names (fst s) @ new"
proof (cases "n = blankIdentifier")
  case True
  with assms have "s' = s"
    by (simp add: Define2_def Let_def split: if_splits)
  then show ?thesis by simp
next
  case nb: False
  show ?thesis
  proof (cases rule: GetLocalIndex_cases [of n "fst s"])
    case (1 idx)
    with Define2_present [OF assms] show ?thesis by simp
  next
    case 2
    with Define2_absent [OF assms] nb show ?thesis by simp
  qed
qed

lemma Predefine_Names:
  "Predefine isConst n s = Inr s' \<Longrightarrow> \<exists>new. Names (fst s') = Names (fst s) @ new"
  by (cases rule: GetLocalIndex_cases [of n "fst s"])
    (auto simp: Predefine_def dest: Define2_Names)

lemma call_Names: "call c s = Inr s' \<Longrightarrow> \<exists>new. Names (fst s') = Names (fst s) @ new"
  by (cases c) (auto simp: Define_def dest: Define2_Names Predefine_Names)

lemma calls_Names: "calls cs s = Inr s' \<Longrightarrow> \<exists>new. Names (fst s') = Names (fst s) @ new"
proof (induction cs arbitrary: s)
  case Nil
  then show ?case by simp
next
  case (Cons c cs)
  then obtain s1 where c: "call c s = Inr s1" and cs: "calls cs s1 = Inr s'"
    by (auto split: sum.splits)
  from call_Names [OF c] Cons.IH [OF cs] show ?case
    by auto
qed

text \<open>
  C2, as the claim states it, fails: a second \<^verbatim>\<open>Define2\<close> with an identical type
  panics when the const status differs from the recorded one, and when the new value
  \<^verbatim>\<open>tv.V\<close> differs from the old one.
\<close>

theorem same_type_redefinition_can_fail:
  "Define2 False ''x'' (Some int_type) \<lparr>T = Some int_type, V = None\<rparr>
      (defined ''x'' True int_type None, no_funcs) = Inl (CannotChangeConstStatus ''x'')
   \<and> Define2 False ''f'' (Some func_type) \<lparr>T = Some func_type, V = Some (FuncValue 2)\<rparr>
      (defined ''f'' False func_type (Some (FuncValue 1)), no_funcs) = Inl (CannotChangeV ''f'')
   \<and> \<not> IsUndefined (Values (defined ''x'' True int_type None) ! 0)
   \<and> \<not> IsUndefined (Values (defined ''f'' False func_type (Some (FuncValue 1))) ! 0)
   \<and> Types (defined ''x'' True int_type None) ! 0 = Some int_type
   \<and> Types (defined ''f'' False func_type (Some (FuncValue 1))) ! 0 = Some func_type"
  by (simp add: Define2_def Define2_redefine_def IsUndefined_def Let_def defined_def
      GetLocalIndex_def getLocalIsConst_def blankIdentifier_def int_type_def func_type_def)

text \<open>
  C2, amended. Let \<open>n\<close> be a non-empty, non-blank name with a slot in a block whose
  slices are parallel and hold fewer than 65535 names, let the stored value be defined
  (its type \<open>ot\<close> is not nil) and let the new value have the type \<open>nt\<close>. The
  comparison is between the types of the two values; the declared type \<open>st\<close> is
  not compared. Unless \<open>nt\<close> is a zero function type, \<^verbatim>\<open>Define2\<close> succeeds exactly
  when the const status is the recorded one, the type ids of \<open>nt\<close> and \<open>ot\<close> are
  equal and the new \<^verbatim>\<open>tv.V\<close> equals the old one; it then writes the value and the
  declared type into the existing slot, and it panics otherwise, in particular whenever
  the type ids differ. When \<open>nt\<close> is a zero function type, the const status is the
  recorded one and \<^verbatim>\<open>tv.V\<close> is a function value, the call is accepted as a function
  upgrade: the slot keeps the old type, as value type and as declared type, the function
  value gets the old type and the old value is saved in \<open>oldValues\<close>.
\<close>

theorem redefinition_rule:
  assumes name: "n \<noteq> []" "n \<noteq> blankIdentifier"
    and count: "unat (NumNames sb) = length (Names sb)" "NumNames sb \<noteq> 0xFFFF"
    and slices: "length (Values sb) = length (Names sb)" "length (Types sb) = length (Names sb)"
    and slot: "GetLocalIndex sb n = (idx, True)"
    and old: "T (Values sb ! unat idx) = Some ot"
    and new: "T tv = Some nt"
  shows "(\<not> (Kind nt = FuncKind \<and> IsZero nt) \<longrightarrow>
           Define2 isConst n st tv (sb, fvs) =
             (if isConst \<noteq> getLocalIsConst sb n then Inl (CannotChangeConstStatus n)
              else if TypeID nt \<noteq> TypeID ot then Inl (CannotChangeT n)
              else if V tv \<noteq> V (Values sb ! unat idx) then Inl (CannotChangeV n)
              else Inr (sb\<lparr>Values := (Values sb)[unat idx := tv],
                           Types := (Types sb)[unat idx := st]\<rparr>, fvs)))
    \<and> (Kind nt = FuncKind \<and> IsZero nt \<and> isConst = getLocalIsConst sb n
          \<and> V tv = Some (FuncValue fv) \<longrightarrow>
           Define2 isConst n st tv (sb, fvs) =
             Inr (sb\<lparr>oldValues := oldValues sb @ [(idx, V (Values sb ! unat idx))],
                     Values := (Values sb)[unat idx := tv\<lparr>T := Some ot\<rparr>],
                     Types := (Types sb)[unat idx := Some ot]\<rparr>, fvs(fv := Some ot)))"
proof -
  from GetLocalIndex_unat(2) [OF slot count(1)] slices
  have i: "unat idx < length (Values sb)" "unat idx < length (Types sb)"
    by simp_all
  show ?thesis
    using name count slot old new i
    by (simp add: Define2_def Define2_redefine_def IsUndefined_def Let_def)
qed

theorem redefinition_rule_witness:
  "Define2 False ''x'' (Some int_type) \<lparr>T = Some int_type, V = None\<rparr>
      (defined ''x'' False int_type None, no_funcs)
     = Inr (defined ''x'' False int_type None, no_funcs)
   \<and> Define2 False ''x'' (Some func_type) \<lparr>T = Some func_type, V = None\<rparr>
      (defined ''x'' False int_type None, no_funcs) = Inl (CannotChangeT ''x'')
   \<and> Define2 False ''f'' None \<lparr>T = Some zero_func_type, V = Some (FuncValue 2)\<rparr>
      (defined ''f'' False func_type (Some (FuncValue 1)), no_funcs)
     = Inr ((defined ''f'' False func_type (Some (FuncValue 2)))
              \<lparr>oldValues := [(0, Some (FuncValue 1))]\<rparr>, no_funcs(2 := Some func_type))"
  using
    redefinition_rule [of "''x''" "defined ''x'' False int_type None" 0 int_type
      "\<lparr>T = Some int_type, V = None\<rparr>" int_type False "Some int_type" no_funcs 2]
    redefinition_rule [of "''x''" "defined ''x'' False int_type None" 0 int_type
      "\<lparr>T = Some func_type, V = None\<rparr>" func_type False "Some func_type" no_funcs 2]
    redefinition_rule [of "''f''" "defined ''f'' False func_type (Some (FuncValue 1))" 0 func_type
      "\<lparr>T = Some zero_func_type, V = Some (FuncValue 2)\<rparr>" zero_func_type False None no_funcs 2]
  by (simp add: defined_def GetLocalIndex_def getLocalIsConst_def blankIdentifier_def
      int_type_def func_type_def zero_func_type_def)

lemma Define2_present_exact:
  assumes d: "Define2 isConst n st tv s = Inr s'"
    and i: "GetLocalIndex (fst s) n = (idx, True)"
    and nb: "n \<noteq> blankIdentifier"
  shows "unat idx < length (Values (fst s)) \<and> unat idx < length (Types (fst s))
    \<and> Values (fst s') = (Values (fst s))[unat idx :=
          (if \<not> IsUndefined (Values (fst s) ! unat idx)
               \<and> (case T tv of None \<Rightarrow> False | Some t \<Rightarrow> Kind t = FuncKind \<and> IsZero t)
           then tv\<lparr>T := T (Values (fst s) ! unat idx)\<rparr> else tv)]
    \<and> Types (fst s') = (Types (fst s))[unat idx :=
          (if \<not> IsUndefined (Values (fst s) ! unat idx)
               \<and> (case T tv of None \<Rightarrow> False | Some t \<Rightarrow> Kind t = FuncKind \<and> IsZero t)
           then T (Values (fst s) ! unat idx) else st)]"
proof -
  let ?old = "Values (fst s) ! unat idx"
  from d i nb have len: "unat idx < length (Values (fst s))"
    by (auto simp: Define2_def Let_def split: if_splits)
  from d i nb len obtain st' tv' sb' fvs' where
    r: "Define2_redefine n idx ?old st tv s = Inr (st', tv', sb', fvs')"
    and lt: "unat idx < length (Types sb')"
    and s': "s' = (sb'\<lparr>Values := (Values sb')[unat idx := tv'],
                        Types := (Types sb')[unat idx := st']\<rparr>, fvs')"
    by (auto simp: Define2_def Let_def split: if_splits sum.splits)
  from r have new:
    "tv' = (if \<not> IsUndefined ?old
               \<and> (case T tv of None \<Rightarrow> False | Some t \<Rightarrow> Kind t = FuncKind \<and> IsZero t)
            then tv\<lparr>T := T ?old\<rparr> else tv)"
    "st' = (if \<not> IsUndefined ?old
               \<and> (case T tv of None \<Rightarrow> False | Some t \<Rightarrow> Kind t = FuncKind \<and> IsZero t)
            then T ?old else st)"
    by (auto simp: Define2_redefine_def split: option.splits if_splits Value.splits)
  from Define2_redefine_Names [OF r] s' len lt new show ?thesis
    by simp
qed

text \<open>
  C4. Slot indices are stable. After any sequence of \<^verbatim>\<open>Define\<close>, \<^verbatim>\<open>Define2\<close> and
  \<^verbatim>\<open>Predefine\<close> calls that runs to its end, the names of the block are the old
  names followed by the new ones, and \<^verbatim>\<open>GetLocalIndex\<close> returns for every name that
  had a slot the index it returned before. A \<^verbatim>\<open>Define2\<close> of a name that has a slot
  leaves the names alone and writes at the index of the slot, which lies inside both
  slices: the value \<open>tv\<close> and the declared type \<open>st\<close>, or, on a function upgrade
  (the old value is defined and the type of \<open>tv\<close> is a zero function type), \<open>tv\<close>
  with the old type and the old type. A \<^verbatim>\<open>Define2\<close> of a new name appends the name,
  the value and the type, and a \<^verbatim>\<open>Define2\<close> of the blank identifier changes nothing.
\<close>

theorem slot_index_is_stable:
  "(\<forall>s'. calls cs s = Inr s' \<longrightarrow>
      (\<exists>new. Names (fst s') = Names (fst s) @ new)
      \<and> (\<forall>n idx. GetLocalIndex (fst s) n = (idx, True) \<longrightarrow>
            GetLocalIndex (fst s') n = (idx, True)))
   \<and> (\<forall>s' idx. Define2 isConst n st tv s = Inr s' \<and> GetLocalIndex (fst s) n = (idx, True)
          \<and> n \<noteq> blankIdentifier \<longrightarrow>
        Names (fst s') = Names (fst s) \<and> NumNames (fst s') = NumNames (fst s)
        \<and> unat idx < length (Values (fst s)) \<and> unat idx < length (Types (fst s))
        \<and> Values (fst s') = (Values (fst s))[unat idx :=
              (if \<not> IsUndefined (Values (fst s) ! unat idx)
                   \<and> (case T tv of None \<Rightarrow> False | Some t \<Rightarrow> Kind t = FuncKind \<and> IsZero t)
               then tv\<lparr>T := T (Values (fst s) ! unat idx)\<rparr> else tv)]
        \<and> Types (fst s') = (Types (fst s))[unat idx :=
              (if \<not> IsUndefined (Values (fst s) ! unat idx)
                   \<and> (case T tv of None \<Rightarrow> False | Some t \<Rightarrow> Kind t = FuncKind \<and> IsZero t)
               then T (Values (fst s) ! unat idx) else st)])
   \<and> (\<forall>s'. Define2 isConst n st tv s = Inr s' \<and> n \<notin> set (Names (fst s))
          \<and> n \<noteq> blankIdentifier \<longrightarrow>
        Names (fst s') = Names (fst s) @ [n] \<and> Values (fst s') = Values (fst s) @ [tv]
        \<and> Types (fst s') = Types (fst s) @ [st])
   \<and> (\<forall>s'. Define2 isConst blankIdentifier st tv s = Inr s' \<longrightarrow> s' = s)"
proof (intro conjI allI impI)
  fix s' assume "calls cs s = Inr s'"
  from calls_Names [OF this] show "\<exists>new. Names (fst s') = Names (fst s) @ new" .
next
  fix s' n idx
  assume "calls cs s = Inr s'" and "GetLocalIndex (fst s) n = (idx, True)"
  with calls_Names [of cs s s'] show "GetLocalIndex (fst s') n = (idx, True)"
    by (auto intro: GetLocalIndex_Names)
next
  fix s' idx
  assume a: "Define2 isConst n st tv s = Inr s' \<and> GetLocalIndex (fst s) n = (idx, True)
          \<and> n \<noteq> blankIdentifier"
  from Define2_present [of isConst n st tv s s' idx] a
  show "Names (fst s') = Names (fst s)" and "NumNames (fst s') = NumNames (fst s)"
    by simp_all
  from Define2_present_exact [of isConst n st tv s s' idx] a
  show "unat idx < length (Values (fst s))" and "unat idx < length (Types (fst s))"
    and "Values (fst s') = (Values (fst s))[unat idx :=
              (if \<not> IsUndefined (Values (fst s) ! unat idx)
                   \<and> (case T tv of None \<Rightarrow> False | Some t \<Rightarrow> Kind t = FuncKind \<and> IsZero t)
               then tv\<lparr>T := T (Values (fst s) ! unat idx)\<rparr> else tv)]"
    and "Types (fst s') = (Types (fst s))[unat idx :=
              (if \<not> IsUndefined (Values (fst s) ! unat idx)
                   \<and> (case T tv of None \<Rightarrow> False | Some t \<Rightarrow> Kind t = FuncKind \<and> IsZero t)
               then T (Values (fst s) ! unat idx) else st)]"
    by simp_all
next
  fix s'
  assume a: "Define2 isConst n st tv s = Inr s' \<and> n \<notin> set (Names (fst s))
          \<and> n \<noteq> blankIdentifier"
  from Define2_absent [of isConst n st tv s s'] a
  show "Names (fst s') = Names (fst s) @ [n]" and "Values (fst s') = Values (fst s) @ [tv]"
    and "Types (fst s') = Types (fst s) @ [st]"
    by simp_all
next
  fix s' assume "Define2 isConst blankIdentifier st tv s = Inr s'"
  then show "s' = s"
    by (simp add: Define2_def Let_def split: if_splits)
qed

theorem slot_index_is_stable_witness:
  "calls [CallDefine ''y'' \<lparr>T = Some int_type, V = None\<rparr>, CallPredefine True ''z'',
          CallDefine2 False ''x'' (Some int_type) \<lparr>T = Some int_type, V = None\<rparr>]
      (defined ''x'' False int_type None, no_funcs)
     = Inr (xyz_block, no_funcs)
   \<and> Names xyz_block = Names (defined ''x'' False int_type None) @ [''y'', ''z'']
   \<and> GetLocalIndex (defined ''x'' False int_type None) ''x'' = (0, True)
   \<and> GetLocalIndex xyz_block ''x'' = (0, True)
   \<and> Define2 False ''z'' (Some int_type) \<lparr>T = Some int_type, V = None\<rparr>
        (block (reserved NBlockStmt [''z'']), no_funcs)
     = Inr (defined ''z'' False int_type None, no_funcs)
   \<and> GetLocalIndex (block (reserved NBlockStmt [''z''])) ''z'' = (0, True)
   \<and> Values (defined ''z'' False int_type None)
     = (Values (block (reserved NBlockStmt [''z''])))[0 := \<lparr>T = Some int_type, V = None\<rparr>]
   \<and> Types (defined ''z'' False int_type None)
     = (Types (block (reserved NBlockStmt [''z''])))[0 := Some int_type]
   \<and> Define2 False ''f'' None \<lparr>T = Some zero_func_type, V = Some (FuncValue 2)\<rparr>
        (defined ''f'' False func_type (Some (FuncValue 1)), no_funcs)
     = Inr ((defined ''f'' False func_type (Some (FuncValue 2)))
              \<lparr>oldValues := [(0, Some (FuncValue 1))]\<rparr>, no_funcs(2 := Some func_type))
   \<and> Types ((defined ''f'' False func_type (Some (FuncValue 2)))
              \<lparr>oldValues := [(0, Some (FuncValue 1))]\<rparr>)
     = (Types (defined ''f'' False func_type (Some (FuncValue 1))))[0 := Some func_type]"
proof -
  have r: "calls [CallDefine ''y'' \<lparr>T = Some int_type, V = None\<rparr>, CallPredefine True ''z'',
          CallDefine2 False ''x'' (Some int_type) \<lparr>T = Some int_type, V = None\<rparr>]
      (defined ''x'' False int_type None, no_funcs)
     = Inr (xyz_block, no_funcs)"
    by (simp add: Define_def Predefine_def Define2_def Define2_redefine_def IsUndefined_def
        Let_def defined_def xyz_block_def GetLocalIndex_def getLocalIsConst_def
        blankIdentifier_def int_type_def anyValue_def)
  have i: "GetLocalIndex (defined ''x'' False int_type None) ''x'' = (0, True)"
    by (simp add: GetLocalIndex_def defined_def)
  have z: "Define2 False ''z'' (Some int_type) \<lparr>T = Some int_type, V = None\<rparr>
        (block (reserved NBlockStmt [''z'']), no_funcs)
     = Inr (defined ''z'' False int_type None, no_funcs)"
    by (simp add: Define2_def Define2_redefine_def IsUndefined_def Let_def defined_def
        reserved_def GetLocalIndex_def getLocalIsConst_def blankIdentifier_def anyValue_def)
  have iz: "GetLocalIndex (block (reserved NBlockStmt [''z''])) ''z'' = (0, True)"
    by (simp add: GetLocalIndex_def reserved_def)
  have f: "Define2 False ''f'' None \<lparr>T = Some zero_func_type, V = Some (FuncValue 2)\<rparr>
        (defined ''f'' False func_type (Some (FuncValue 1)), no_funcs)
     = Inr ((defined ''f'' False func_type (Some (FuncValue 2)))
              \<lparr>oldValues := [(0, Some (FuncValue 1))]\<rparr>, no_funcs(2 := Some func_type))"
    by (simp add: Define2_def Define2_redefine_def IsUndefined_def Let_def defined_def
        GetLocalIndex_def getLocalIsConst_def blankIdentifier_def zero_func_type_def)
  have fi: "GetLocalIndex (defined ''f'' False func_type (Some (FuncValue 1))) ''f'' = (0, True)"
    by (simp add: GetLocalIndex_def defined_def)
  have nb: "''z'' \<noteq> blankIdentifier" "''f'' \<noteq> blankIdentifier"
    by (simp_all add: blankIdentifier_def)
  from slot_index_is_stable [of
      "[CallDefine ''y'' \<lparr>T = Some int_type, V = None\<rparr>, CallPredefine True ''z'',
        CallDefine2 False ''x'' (Some int_type) \<lparr>T = Some int_type, V = None\<rparr>]"
      "(defined ''x'' False int_type None, no_funcs)"] r i
  have a: "Names xyz_block = Names (defined ''x'' False int_type None) @ [''y'', ''z'']"
    "GetLocalIndex xyz_block ''x'' = (0, True)"
    by (simp_all add: defined_def xyz_block_def)
  from slot_index_is_stable [of "[]" "(block (reserved NBlockStmt [''z'']), no_funcs)"
      False "''z''" "Some int_type" "\<lparr>T = Some int_type, V = None\<rparr>"] z iz nb
  have b: "Values (defined ''z'' False int_type None)
     = (Values (block (reserved NBlockStmt [''z''])))[0 := \<lparr>T = Some int_type, V = None\<rparr>]"
    "Types (defined ''z'' False int_type None)
     = (Types (block (reserved NBlockStmt [''z''])))[0 := Some int_type]"
    by (simp_all add: reserved_def IsUndefined_def anyValue_def)
  from slot_index_is_stable [of "[]" "(defined ''f'' False func_type (Some (FuncValue 1)), no_funcs)"
      False "''f''" None "\<lparr>T = Some zero_func_type, V = Some (FuncValue 2)\<rparr>"] f fi nb
  have c: "Types ((defined ''f'' False func_type (Some (FuncValue 2)))
              \<lparr>oldValues := [(0, Some (FuncValue 1))]\<rparr>)
     = (Types (defined ''f'' False func_type (Some (FuncValue 1))))[0 := Some func_type]"
    by (simp add: defined_def IsUndefined_def zero_func_type_def)
  from r i z iz f a b c show ?thesis by simp
qed

text \<open>
  C10. \<^verbatim>\<open>Predefine\<close> of a name that already has a slot returns without touching
  the block: names, types, constants, heap items, the count of names and the values stay
  as they are and nothing panics, whatever \<open>isConst\<close> is. So \<^verbatim>\<open>Predefine\<close> is
  idempotent: after a \<^verbatim>\<open>Predefine\<close> that returned, a second one of the same name
  changes nothing.
\<close>

theorem Predefine_present_is_noop:
  "(n \<in> set (Names (fst s)) \<longrightarrow> Predefine isConst n s = Inr s)
   \<and> (\<forall>s' isConst'. Predefine isConst n s = Inr s' \<longrightarrow> Predefine isConst' n s' = Inr s')"
proof (intro conjI allI impI)
  assume "n \<in> set (Names (fst s))"
  then show "Predefine isConst n s = Inr s"
    by (cases rule: GetLocalIndex_cases [of n "fst s"]) (simp_all add: Predefine_def)
next
  fix s' isConst'
  assume p: "Predefine isConst n s = Inr s'"
  show "Predefine isConst' n s' = Inr s'"
  proof (cases rule: GetLocalIndex_cases [of n "fst s"])
    case (1 idx)
    with p show ?thesis by (simp add: Predefine_def)
  next
    case 2
    with p have d: "Define2 isConst n None (anyValue None) s = Inr s'"
      by (simp add: Predefine_def)
    show ?thesis
    proof (cases "n = blankIdentifier")
      case True
      with d have "s' = s" and "Define2 isConst' n None (anyValue None) s = Inr s"
        by (simp_all add: Define2_def Let_def split: if_splits)
      with 2 show ?thesis by (simp add: Predefine_def)
    next
      case False
      with Define2_absent [OF d] 2 have "n \<in> set (Names (fst s'))" by simp
      then show ?thesis
        by (cases rule: GetLocalIndex_cases [of n "fst s'"]) (simp_all add: Predefine_def)
    qed
  qed
qed

theorem Predefine_present_is_noop_witness:
  "''x'' \<in> set (Names (defined ''x'' False int_type None))
   \<and> Predefine True ''x'' (defined ''x'' False int_type None, no_funcs)
       = Inr (defined ''x'' False int_type None, no_funcs)"
  using Predefine_present_is_noop [of "''x''" "(defined ''x'' False int_type None, no_funcs)" True]
  by (simp add: defined_def)

subsection \<open>From a path back to the declaring block\<close>

lemma faux_consistent_tl: "faux_consistent (b # c) \<Longrightarrow> faux_consistent c"
  by (cases c) (auto split: if_splits)

lemma faux_consistent_parent:
  "faux_consistent (b # c) \<Longrightarrow> fauxChildBlockNode b \<Longrightarrow>
   \<exists>pn rest. c = pn # rest \<and> \<not> fauxChildBlockNode pn
     \<and> take (length (Names (block b))) (Names (block pn))
         = take (length (Names (block pn))) (Names (block b))"
  by (cases c) (auto simp: fauxChildBlockNode_def)

lemma faux_count_le: "length (filter P (take j xs)) \<le> j"
  by (rule order_trans [OF length_filter_le]) simp

lemma walk:
  "faux_consistent c \<Longrightarrow> k < length c \<Longrightarrow>
   m + length (filter fauxChildBlockNode (take k c)) = k \<Longrightarrow>
   GetBlockNodeForPath_loop m c =
     Inr (drop (if 0 < k \<and> fauxChildBlockNode (c ! (k - 1)) then k - 1 else k) c)"
proof (induction k arbitrary: c m rule: less_induct)
  case (less k)
  show ?case
  proof (cases k)
    case 0
    with less.prems show ?thesis by simp
  next
    case (Suc k1)
    with less.prems obtain b c1 where c: "c = b # c1" and k1: "k1 < length c1"
      by (cases c) auto
    from less.prems(1) c have fc1: "faux_consistent c1"
      by (auto dest: faux_consistent_tl)
    show ?thesis
    proof (cases "fauxChildBlockNode b")
      case nf: False
      from less.prems(3) Suc c nf
      have cnt: "m + length (filter fauxChildBlockNode (take k1 c1)) = Suc k1"
        by simp
      with faux_count_le [of fauxChildBlockNode k1 c1] obtain m1 where m: "m = Suc m1"
        by (cases m) auto
      with cnt have cnt1: "m1 + length (filter fauxChildBlockNode (take k1 c1)) = k1"
        by simp
      from less.IH [OF _ fc1 k1 cnt1] Suc
      have "GetBlockNodeForPath_loop m1 c1 =
        Inr (drop (if 0 < k1 \<and> fauxChildBlockNode (c1 ! (k1 - 1)) then k1 - 1 else k1) c1)"
        by simp
      with c m nf Suc show ?thesis
        by (cases k1) auto
    next
      case f: True
      from faux_consistent_parent [OF less.prems(1) [unfolded c] f]
      obtain pn c2 where c1: "c1 = pn # c2" and npn: "\<not> fauxChildBlockNode pn"
        by auto
      from fc1 c1 have fc2: "faux_consistent c2"
        by (auto dest: faux_consistent_tl)
      show ?thesis
      proof (cases k1)
        case 0
        with less.prems(3) Suc c f show ?thesis by simp
      next
        case (Suc k2)
        with k1 c1 have k2: "k2 < length c2" by simp
        from less.prems(3) \<open>k = Suc k1\<close> Suc c c1 f npn
        have cnt: "m + length (filter fauxChildBlockNode (take k2 c2)) = Suc k2"
          by simp
        with faux_count_le [of fauxChildBlockNode k2 c2] obtain m1 where m: "m = Suc m1"
          by (cases m) auto
        with cnt have cnt2: "m1 + length (filter fauxChildBlockNode (take k2 c2)) = k2"
          by simp
        from less.IH [OF _ fc2 k2 cnt2] Suc \<open>k = Suc k1\<close>
        have "GetBlockNodeForPath_loop m1 c2 =
          Inr (drop (if 0 < k2 \<and> fauxChildBlockNode (c2 ! (k2 - 1)) then k2 - 1 else k2) c2)"
          by simp
        with c c1 m f npn Suc \<open>k = Suc k1\<close> show ?thesis
          by (cases k2) auto
      qed
    qed
  qed
qed

lemma faux_consistent_nth:
  "faux_consistent c \<Longrightarrow> i < length c \<Longrightarrow> fauxChildBlockNode (c ! i) \<Longrightarrow>
   Suc i < length c \<and> \<not> fauxChildBlockNode (c ! Suc i)
   \<and> take (length (Names (block (c ! i)))) (Names (block (c ! Suc i)))
       = take (length (Names (block (c ! Suc i)))) (Names (block (c ! i)))"
proof (induction c arbitrary: i)
  case Nil
  then show ?case by simp
next
  case (Cons b c)
  show ?case
  proof (cases i)
    case 0
    with Cons.prems faux_consistent_parent [of b c] show ?thesis by auto
  next
    case (Suc j)
    with Cons.prems Cons.IH [of j] show ?thesis
      by (auto dest: faux_consistent_tl)
  qed
qed

lemma ancestors_path:
  "GetPathForName_ancestors n gen fc sn = Inr (Some p, sn') \<Longrightarrow>
   \<exists>k. k = length (takeWhile (\<lambda>b. n \<notin> set (Names (block b))) sn) \<and> k < length sn
     \<and> n \<in> set (Names (block (sn ! k)))
     \<and> \<not> 0xff < gen + int k - fc - int (length (filter fauxChildBlockNode (take k sn)))
     \<and> p = \<lparr>Type = VPBlock,
            Depth = of_int (gen + int k - fc
                      - int (length (filter fauxChildBlockNode (take k sn)))),
            Index = fst (GetLocalIndex (block (sn ! k)) n), Name = n\<rparr>"
proof (induction sn arbitrary: gen fc sn')
  case Nil
  then show ?case by simp
next
  case (Cons b parent)
  show ?case
  proof (cases rule: GetLocalIndex_cases [of n "block b"])
    case (1 idx)
    with Cons.prems show ?thesis
      by (auto simp: NewValuePathBlock_def split: if_splits sum.splits
          dest: NewValuePath_fields)
  next
    case 2
    with Cons.prems obtain parent' where
      a: "GetPathForName_ancestors n (gen + 1)
            (if fauxChildBlockNode b then fc + 1 else fc) parent = Inr (Some p, parent')"
      by (auto split: sum.splits)
    from Cons.IH [OF a] 2 show ?thesis
      by (auto split: if_splits)
  qed
qed

lemma GetPathForName_path:
  assumes "GetPathForName uverse c n = Inr (p, c')" and "Type p = VPBlock"
    and "1 \<le> unat (Depth p)"
  shows "\<exists>k. k = length (takeWhile (\<lambda>b. n \<notin> set (Names (block b))) c) \<and> k < length c
     \<and> n \<in> set (Names (block (c ! k)))
     \<and> unat (Depth p) + length (filter fauxChildBlockNode (take k c)) = Suc k
     \<and> Index p = fst (GetLocalIndex (block (c ! k)) n)"
proof -
  have nb: "n \<noteq> blankIdentifier"
  proof
    assume "n = blankIdentifier"
    with assms(1) have "Depth p = 0"
      by (auto simp: GetPathForName_def NewValuePathBlock_def split: sum.splits
          dest: NewValuePath_fields)
    with assms(3) show False by simp
  qed
  with assms(1) obtain sn parent where c: "c = sn # parent"
    by (cases c) (auto simp: GetPathForName_def)
  show ?thesis
  proof (cases rule: GetLocalIndex_cases [of n "block sn"])
    case (1 idx)
    with assms(1) nb c have "p = \<lparr>Type = VPBlock, Depth = 1, Index = idx, Name = n\<rparr>"
      by (auto simp: GetPathForName_def NewValuePathBlock_def split: sum.splits
          dest: NewValuePath_fields)
    with 1 c show ?thesis by simp
  next
    case 2
    let ?fc = "if fauxChildBlockNode sn then 1 else 0 :: int"
    from assms(1,2) nb c 2 obtain parent' where
      a: "GetPathForName_ancestors n 2 ?fc parent = Inr (Some p, parent')"
      by (auto simp: GetPathForName_def NewValuePathUverse_def VPType_defs
          split: sum.splits option.splits prod.splits bool.splits
          dest!: NewValuePath_fields)
    define k where "k = length (takeWhile (\<lambda>b. n \<notin> set (Names (block b))) parent)"
    define F where "F = length (filter fauxChildBlockNode (take k parent))"
    from ancestors_path [OF a] have k: "k < length parent"
      and nk: "n \<in> set (Names (block (parent ! k)))"
      and le: "\<not> 0xff < 2 + int k - ?fc - int F"
      and p: "p = \<lparr>Type = VPBlock, Depth = of_int (2 + int k - ?fc - int F),
            Index = fst (GetLocalIndex (block (parent ! k)) n), Name = n\<rparr>"
      by (simp_all add: k_def F_def)
    have "F \<le> k"
      unfolding F_def by (rule faux_count_le)
    then have pos: "0 \<le> 2 + int k - ?fc - int F" by simp
    define d where "d = nat (2 + int k - ?fc - int F)"
    from pos le have d: "int d = 2 + int k - ?fc - int F" and d255: "d \<le> 255"
      by (simp_all add: d_def)
    from p d have "Depth p = of_nat d"
      by (metis ValuePath.select_convs(2) of_int_of_nat_eq)
    with d255 have "unat (Depth p) = d"
      by (simp add: unat_of_nat)
    moreover from d have "d + ((if fauxChildBlockNode sn then 1 else 0) + F) = Suc (Suc k)"
      by (cases "fauxChildBlockNode sn") simp_all
    ultimately
    have "unat (Depth p) + ((if fauxChildBlockNode sn then 1 else 0) + F) = Suc (Suc k)"
      by simp
    moreover from p have "Index p = fst (GetLocalIndex (block (parent ! k)) n)"
      by simp
    ultimately show ?thesis
      using c 2 k nk unfolding k_def F_def
      by (cases "fauxChildBlockNode sn") simp_all
  qed
qed

lemma first_index_agree:
  assumes agree: "take (length xs) ys = take (length ys) xs" and n: "n \<in> set xs"
    and i: "length (takeWhile (\<lambda>x. x \<noteq> n) xs) < length ys"
  shows "n \<in> set ys
    \<and> length (takeWhile (\<lambda>x. x \<noteq> n) ys) = length (takeWhile (\<lambda>x. x \<noteq> n) xs)"
proof -
  let ?i = "length (takeWhile (\<lambda>x. x \<noteq> n) xs)"
  from n have ix: "?i < length xs" by (rule first_index_less)
  have same: "ys ! j = xs ! j" if "j \<le> ?i" for j
  proof -
    from that ix i have "j < length xs" "j < length ys" by simp_all
    then have "take (length xs) ys ! j = ys ! j" "take (length ys) xs ! j = xs ! j"
      by simp_all
    with agree show ?thesis by simp
  qed
  from ix have "\<not> xs ! ?i \<noteq> n" by (rule nth_length_takeWhile)
  with same [of ?i] have yi: "ys ! ?i = n" by simp
  have "ys ! j \<noteq> n" if "j < ?i" for j
  proof -
    from that have "takeWhile (\<lambda>x. x \<noteq> n) xs ! j = xs ! j" by (rule takeWhile_nth)
    moreover from that have "takeWhile (\<lambda>x. x \<noteq> n) xs ! j \<in> set (takeWhile (\<lambda>x. x \<noteq> n) xs)"
      by simp
    ultimately have "xs ! j \<noteq> n" by (auto dest: set_takeWhileD)
    with same [of j] that show ?thesis by simp
  qed
  with yi i have "takeWhile (\<lambda>x. x \<noteq> n) ys = take ?i ys"
    by (intro takeWhile_eq_take_P_nth) auto
  with i have "length (takeWhile (\<lambda>x. x \<noteq> n) ys) = ?i" by simp
  moreover from yi i have "n \<in> set ys" by (auto simp: in_set_conv_nth)
  ultimately show ?thesis by simp
qed

lemma counted_nth: "counted c \<Longrightarrow> k < length c \<Longrightarrow>
    unat (NumNames (block (c ! k))) = length (Names (block (c ! k)))"
  by (simp add: counted_def list_all_length)

lemma locate_declaring:
  assumes fc: "faux_consistent c" and cnt: "counted c"
    and g: "GetPathForName uverse c n = Inr (p, c')"
    and t: "Type p = VPBlock" and d: "1 \<le> unat (Depth p)"
  shows "\<exists>r rest. GetBlockNodeForPath c p = Inr (r # rest)
           \<and> GetLocalIndex (block r) n = (Index p, True)"
proof -
  define k where "k = length (takeWhile (\<lambda>b. n \<notin> set (Names (block b))) c)"
  from GetPathForName_path [OF g t d]
  have k: "k < length c" and nk: "n \<in> set (Names (block (c ! k)))"
    and dep: "unat (Depth p) + length (filter fauxChildBlockNode (take k c)) = Suc k"
    and idx: "Index p = fst (GetLocalIndex (block (c ! k)) n)"
    by (simp_all add: k_def)
  from nk idx have li: "GetLocalIndex (block (c ! k)) n = (Index p, True)"
    by (cases rule: GetLocalIndex_cases [of n "block (c ! k)"]) simp_all
  from k obtain b0 c0 where c: "c = b0 # c0" by (cases c) auto
  from dep d
  have m: "(unat (Depth p) - 1) + length (filter fauxChildBlockNode (take k c)) = k"
    by simp
  note w = walk [OF fc k m]
  note ck = counted_nth [OF cnt k]
  from GetLocalIndex_unat [OF li ck]
  have ui: "unat (Index p) = length (takeWhile (\<lambda>x. x \<noteq> n) (Names (block (c ! k))))"
    and ul: "unat (Index p) < length (Names (block (c ! k)))"
    by simp_all
  show ?thesis
  proof (cases "0 < k \<and> fauxChildBlockNode (c ! (k - 1))")
    case True
    then obtain k1 where k1: "k = Suc k1" by (cases k) auto
    with k have dr: "drop k1 c = c ! k1 # c ! k # drop (Suc k) c"
      by (simp add: Cons_nth_drop_Suc Suc_lessD)
    from ul ck have "Index p < NumNames (block (c ! k))"
      by (simp add: word_less_nat_alt)
    with w True k1 dr t c li show ?thesis
      by (simp add: GetBlockNodeForPath_def)
  next
    case False
    with w have w': "GetBlockNodeForPath_loop (unat (Depth p) - 1) c = Inr (drop k c)"
      by auto
    from k have dr: "drop k c = c ! k # drop (Suc k) c"
      by (simp add: Cons_nth_drop_Suc)
    show ?thesis
    proof (cases "fauxChildBlockNode (c ! k)")
      case nf: False
      with w' dr t c li show ?thesis
        by (simp add: GetBlockNodeForPath_def)
    next
      case f: True
      from faux_consistent_nth [OF fc k f]
      have sk: "Suc k < length c"
        and agree: "take (length (Names (block (c ! k)))) (Names (block (c ! Suc k)))
          = take (length (Names (block (c ! Suc k)))) (Names (block (c ! k)))"
        by simp_all
      from sk have dr2: "drop (Suc k) c = c ! Suc k # drop (Suc (Suc k)) c"
        by (simp add: Cons_nth_drop_Suc)
      show ?thesis
      proof (cases "Index p < NumNames (block (c ! Suc k))")
        case lt: True
        with counted_nth [OF cnt sk]
        have "unat (Index p) < length (Names (block (c ! Suc k)))"
          by (simp add: word_less_nat_alt)
        with ui have "length (takeWhile (\<lambda>x. x \<noteq> n) (Names (block (c ! k))))
            < length (Names (block (c ! Suc k)))"
          by simp
        from first_index_agree [OF agree nk this]
        have "GetLocalIndex (block (c ! Suc k)) n = GetLocalIndex (block (c ! k)) n"
          using nk by (simp add: GetLocalIndex_eq)
        with li w' dr dr2 t c f lt show ?thesis
          by (simp add: GetBlockNodeForPath_def)
      next
        case False
        with li w' dr dr2 t c f show ?thesis
          by (simp add: GetBlockNodeForPath_def)
      qed
    qed
  qed
qed

lemma faux_consistent_noteExtern:
  "faux_consistent (map (\<lambda>b. noteExtern b n) xs @ ys) = faux_consistent (xs @ ys)"
proof (induction xs rule: faux_consistent.induct)
  case 1
  then show ?case by simp
next
  case (2 b)
  then show ?case by (cases ys) (simp_all add: noteExtern_simps)
next
  case (3 b pn rest)
  then show ?case by (simp add: noteExtern_simps)
qed

lemma counted_noteExtern:
  "counted (map (\<lambda>b. noteExtern b n) xs @ ys) = counted (xs @ ys)"
  by (induction xs) (simp_all add: counted_def noteExtern_simps)

lemma GetPathForName_consistent:
  assumes "GetPathForName uverse sb n = Inr (p, sb')"
  shows "faux_consistent sb' = faux_consistent sb" and "counted sb' = counted sb"
proof -
  have "faux_consistent sb' = faux_consistent sb \<and> counted sb' = counted sb"
  proof (cases "n = blankIdentifier")
    case True
    with assms have "sb' = sb"
      by (auto simp: GetPathForName_def split: sum.splits)
    then show ?thesis by simp
  next
    case False
    from GetPathForName_chain [OF assms False]
      faux_consistent_noteExtern [of n "takeWhile (\<lambda>b. n \<notin> set (Names (block b))) sb"
        "dropWhile (\<lambda>b. n \<notin> set (Names (block b))) sb"]
      counted_noteExtern [of n "takeWhile (\<lambda>b. n \<notin> set (Names (block b))) sb"
        "dropWhile (\<lambda>b. n \<notin> set (Names (block b))) sb"]
    show ?thesis by simp
  qed
  then show "faux_consistent sb' = faux_consistent sb" and "counted sb' = counted sb"
    by simp_all
qed

text \<open>
  C9, as the claim states it, fails. The if-clause below declares \<open>x\<close> at index 0
  and its \<^verbatim>\<open>IfStmt\<close> declares \<open>y\<close> at index 0: the path of \<open>x\<close> has depth
  1 and index 0, and \<^verbatim>\<open>GetBlockNodeForPath\<close> answers with the \<^verbatim>\<open>IfStmt\<close>,
  which does not declare \<open>x\<close>.
\<close>

theorem faux_parent_hides_declaring_child:
  "GetPathForName small_uverse shadowed_chain ''x''
     = Inr (\<lparr>Type = VPBlock, Depth = 1, Index = 0, Name = ''x''\<rparr>, shadowed_chain)
   \<and> GetBlockNodeForPath shadowed_chain \<lparr>Type = VPBlock, Depth = 1, Index = 0, Name = ''x''\<rparr>
     = Inr [reserved NIfStmt [''y'']]
   \<and> GetLocalIndex (block (reserved NIfStmt [''y''])) ''x'' = (0, False)"
  by (simp add: shadowed_chain_def small_uverse_def GetBlockNodeForPath_def eval_defs)

text \<open>
  C9, amended. Let the scope chain be such that every faux child has its faux parent as
  parent and declares the same names as the parent at the indices they share, and such
  that \<^verbatim>\<open>NumNames\<close> is the number of names in every block. When
  \<^verbatim>\<open>GetPathForName\<close> returns a block path of depth at least 1 for a name, the block
  node that \<^verbatim>\<open>GetBlockNodeForPath\<close> returns for this path (on the chain as the
  resolution left it, and on the chain before it) is not nil and declares the name at
  the index of the path: \<^verbatim>\<open>GetLocalIndex\<close> returns that index and true.
\<close>

theorem resolve_locate_roundtrip:
  assumes "faux_consistent sb" and "counted sb"
    and "GetPathForName uverse sb n = Inr (p, sb')"
    and "Type p = VPBlock" and "1 \<le> unat (Depth p)"
  shows "(\<exists>r rest. GetBlockNodeForPath sb' p = Inr (r # rest)
            \<and> GetLocalIndex (block r) n = (Index p, True))
    \<and> (\<exists>r rest. GetBlockNodeForPath sb p = Inr (r # rest)
            \<and> GetLocalIndex (block r) n = (Index p, True))"
proof
  from GetPathForName_consistent [OF assms(3)] assms(1,2)
  have "faux_consistent sb'" and "counted sb'" by simp_all
  from locate_declaring [OF this GetPathForName_again [OF assms(3)] assms(4,5)]
  show "\<exists>r rest. GetBlockNodeForPath sb' p = Inr (r # rest)
            \<and> GetLocalIndex (block r) n = (Index p, True)" .
  from locate_declaring [OF assms]
  show "\<exists>r rest. GetBlockNodeForPath sb p = Inr (r # rest)
            \<and> GetLocalIndex (block r) n = (Index p, True)" .
qed

lemma if_chain_c:
  "GetPathForName small_uverse if_chain ''c''
     = Inr (\<lparr>Type = VPBlock, Depth = 1, Index = 0, Name = ''c''\<rparr>, if_chain)"
  by (simp add: if_chain_def small_uverse_def eval_defs)

lemma if_chain_y:
  "GetPathForName small_uverse if_chain ''y''
     = Inr (\<lparr>Type = VPBlock, Depth = 2, Index = 0, Name = ''y''\<rparr>,
            [noteExtern (reserved NIfCaseStmt [''c'', ''x'']) ''y'',
             noteExtern (reserved NIfStmt [''c'']) ''y'', reserved NFuncDecl [''y'']])"
  by (simp add: if_chain_def small_uverse_def eval_defs)

lemma if_chain_ok: "faux_consistent if_chain" "counted if_chain"
  by (simp_all add: if_chain_def counted_def reserved_def fauxChildBlockNode_def)

theorem resolve_locate_roundtrip_witness:
  "GetPathForName small_uverse if_chain ''c''
     = Inr (\<lparr>Type = VPBlock, Depth = 1, Index = 0, Name = ''c''\<rparr>, if_chain)
   \<and> GetBlockNodeForPath if_chain \<lparr>Type = VPBlock, Depth = 1, Index = 0, Name = ''c''\<rparr>
     = Inr [reserved NIfStmt [''c''], reserved NFuncDecl [''y'']]
   \<and> GetLocalIndex (block (reserved NIfStmt [''c''])) ''c'' = (0, True)
   \<and> GetPathForName small_uverse if_chain ''y''
     = Inr (\<lparr>Type = VPBlock, Depth = 2, Index = 0, Name = ''y''\<rparr>,
            [noteExtern (reserved NIfCaseStmt [''c'', ''x'']) ''y'',
             noteExtern (reserved NIfStmt [''c'']) ''y'', reserved NFuncDecl [''y'']])
   \<and> GetBlockNodeForPath
        [noteExtern (reserved NIfCaseStmt [''c'', ''x'']) ''y'',
         noteExtern (reserved NIfStmt [''c'']) ''y'', reserved NFuncDecl [''y'']]
        \<lparr>Type = VPBlock, Depth = 2, Index = 0, Name = ''y''\<rparr>
     = Inr [reserved NFuncDecl [''y'']]
   \<and> GetLocalIndex (block (reserved NFuncDecl [''y''])) ''y'' = (0, True)"
  using resolve_locate_roundtrip [OF if_chain_ok if_chain_c]
    resolve_locate_roundtrip [OF if_chain_ok if_chain_y]
    if_chain_c if_chain_y
  by (simp add: if_chain_def GetBlockNodeForPath_def eval_defs)

subsection \<open>Crossing intent\<close>

lemma CallExpr_isCrossing_iff:
  "CallExpr_isCrossing x =
     (\<exists>f args. x = Some (f, args)
        \<and> (f = NameExpr ''crossing'' \<or> f = ConstExpr (NameExpr ''crossing'')))"
proof (cases x)
  case None
  then show ?thesis by (simp add: CallExpr_isCrossing_def)
next
  case (Some fa)
  obtain f args where fa: "fa = (f, args)" by (cases fa)
  show ?thesis
  proof (cases f)
    case (ConstExpr src)
    with Some fa show ?thesis
      by (cases src) (simp_all add: CallExpr_isCrossing_def)
  qed (use Some fa in \<open>simp_all add: CallExpr_isCrossing_def\<close>)
qed

lemma asCallExpr_Some: "asCallExpr x = Some (f, args) \<longleftrightarrow> x = CallExpr f args"
  by (cases x) auto

text \<open>
  C6. \<^verbatim>\<open>IsCrossing\<close> of a function body is true exactly when the body is not
  empty and its first statement is an expression statement whose expression is a call
  whose function expression is the name \<open>crossing\<close>, directly or as the source of a
  constant expression. An empty body, a first statement of another kind and a first
  expression that is not a call give false.
\<close>

theorem IsCrossing_iff:
  "(IsCrossing ss \<longleftrightarrow>
      (\<exists>f args rest. ss = ExprStmt (CallExpr f args) # rest
         \<and> (f = NameExpr ''crossing'' \<or> f = ConstExpr (NameExpr ''crossing''))))
   \<and> \<not> IsCrossing []
   \<and> ((\<forall>x. s \<noteq> ExprStmt x) \<longrightarrow> \<not> IsCrossing (s # rest))
   \<and> ((\<forall>f args. x \<noteq> CallExpr f args) \<longrightarrow> \<not> IsCrossing (ExprStmt x # rest))"
proof (intro conjI impI)
  show "IsCrossing ss \<longleftrightarrow>
      (\<exists>f args rest. ss = ExprStmt (CallExpr f args) # rest
         \<and> (f = NameExpr ''crossing'' \<or> f = ConstExpr (NameExpr ''crossing'')))"
  proof (cases ss)
    case Nil
    then show ?thesis by (simp add: IsCrossing_def isCrossing_def)
  next
    case (Cons fs rest)
    show ?thesis
    proof (cases fs)
      case (ExprStmt x)
      with Cons show ?thesis
        by (auto simp: IsCrossing_def isCrossing_def CallExpr_isCrossing_iff asCallExpr_Some)
    qed (use Cons in \<open>simp_all add: IsCrossing_def isCrossing_def\<close>)
  qed
  show "\<not> IsCrossing []"
    by (simp add: IsCrossing_def isCrossing_def)
  show "\<not> IsCrossing (s # rest)" if "\<forall>x. s \<noteq> ExprStmt x"
    using that by (cases s) (simp_all add: IsCrossing_def isCrossing_def)
  show "\<not> IsCrossing (ExprStmt x # rest)" if "\<forall>f args. x \<noteq> CallExpr f args"
    using that
    by (cases x) (simp_all add: IsCrossing_def isCrossing_def CallExpr_isCrossing_def)
qed

theorem IsCrossing_iff_witness:
  "IsCrossing [ExprStmt (CallExpr (ConstExpr (NameExpr ''crossing'')) []), ReturnStmt []]
   \<and> IsCrossing [ExprStmt (CallExpr (NameExpr ''crossing'') [])]
   \<and> \<not> IsCrossing [ReturnStmt [], ExprStmt (CallExpr (NameExpr ''crossing'') [])]
   \<and> \<not> IsCrossing [ExprStmt (NameExpr ''crossing'')]
   \<and> \<not> IsCrossing [ExprStmt (CallExpr (NameExpr ''cross'') [])]"
  using IsCrossing_iff [of "[ExprStmt (CallExpr (ConstExpr (NameExpr ''crossing'')) []), ReturnStmt []]"
      "ReturnStmt []" "[ExprStmt (CallExpr (NameExpr ''crossing'') [])]" "NameExpr ''crossing''"]
    IsCrossing_iff [of "[ExprStmt (CallExpr (NameExpr ''crossing'') [])]"]
    IsCrossing_iff [of "[ExprStmt (CallExpr (NameExpr ''cross'') [])]"]
  by simp

subsection \<open>Package names\<close>

lemma underscore_code: "((of_char c :: nat) = 95) = (c = CHR ''_'')"
proof -
  have "(of_char (CHR ''_'') :: nat) = 95" by simp
  then have "((of_char c :: nat) = 95) = ((of_char c :: nat) = of_char (CHR ''_''))"
    by simp
  also have "\<dots> = (c = CHR ''_'')" by (rule of_char_eq_iff)
  finally show ?thesis .
qed

lemma in_class_lower: "in_class [(CHR ''a'', CHR ''z'')] c = lowercase c"
  by (simp add: in_class_def lowercase_def)

lemma in_class_rest:
  "in_class [(CHR ''a'', CHR ''z''), (CHR ''0'', CHR ''9''), (CHR ''_'', CHR ''_'')] c
     = (lowercase c \<or> digit c \<or> c = CHR ''_'')"
proof -
  have "in_class [(CHR ''a'', CHR ''z''), (CHR ''0'', CHR ''9''), (CHR ''_'', CHR ''_'')] c
     = (lowercase c \<or> digit c \<or> (of_char c :: nat) = 95)"
    by (simp add: in_class_def lowercase_def digit_def) linarith
  then show ?thesis by (simp only: underscore_code)
qed

lemma match_items_star: "match_items [(cls, ZeroOrMore)] s = list_all (in_class cls) s"
  by (induction s) auto

lemma match_items_rePkgName:
  "match_items rePkgName name =
     (\<exists>c c' cs. name = c # c' # cs \<and> lowercase c
        \<and> list_all (\<lambda>x. lowercase x \<or> digit x \<or> x = CHR ''_'') (c' # cs))"
proof (cases name)
  case Nil
  then show ?thesis by (simp add: rePkgName_def)
next
  case (Cons c rest)
  show ?thesis
  proof (cases rest)
    case Nil
    with Cons show ?thesis by (simp add: rePkgName_def)
  next
    case (Cons c' cs)
    with \<open>name = c # rest\<close> show ?thesis
      unfolding rePkgName_def
      by (simp add: match_items_star in_class_lower in_class_rest list.pred_set
          del: match_items.simps(4))
  qed
qed

lemma validatePkgName_iff:
  "validatePkgName name = None \<longleftrightarrow> documented_name name \<and> 2 \<le> length name"
proof (cases name)
  case Nil
  then show ?thesis
    by (simp add: validatePkgName_def match_items_rePkgName documented_name_def)
next
  case (Cons c rest)
  then show ?thesis
    by (cases rest)
      (auto simp: validatePkgName_def match_items_rePkgName documented_name_def)
qed

lemma ReadMemPackageFromList_rejects:
  assumes "ReadMemPackageFromList_loop ReadFile Base PackageNameFromFileBody list ([], [])
      = Inr (files, pkgName)"
    and "\<not> IsEmpty \<lparr>PkgName = pkgName, PkgPath = pkgPath, Files = files\<rparr>"
    and "validatePkgName pkgName = Some err"
  shows "ReadMemPackageFromList ReadFile Base PackageNameFromFileBody IsEmpty list pkgPath
      = Inl err"
  using assms by (simp add: ReadMemPackageFromList_def)

text \<open>
  C8. The documented rule for a package name is that it starts with a lowercase letter
  and that its characters are lowercase letters, digits or underscores.
  \<^verbatim>\<open>validatePkgName\<close> accepts exactly the names of that form that have at least
  two characters (\<open>validatePkgName_iff\<close>), and \<^verbatim>\<open>ReadMemPackageFromList\<close>
  returns the error for a non-empty package whose name is rejected
  (\<open>ReadMemPackageFromList_rejects\<close>). The one-letter name \<open>a\<close> satisfies the rule
  and is rejected.
\<close>

theorem one_letter_package_name_is_rejected:
  "documented_name ''a'' \<and> validatePkgName ''a'' = Some (InvalidPackageName ''a'')"
  by (simp add: documented_name_def lowercase_def validatePkgName_def rePkgName_def)

end
